theory Spec2Isabelle
  imports Complex_Main "HOL-Library.Product_Lexorder"
begin

section \<open>Calendar dates\<close>

text \<open>
  The program computes with \<^verbatim>\<open>datetime.date\<close>, \<^verbatim>\<open>datetime.timedelta\<close> and
  \<^verbatim>\<open>dateutil.relativedelta\<close>.  A date is its three fields; comparison is the
  lexicographic one on (year, month, day), as Python compares dates.  The year is an
  unbounded integer: the library's limits (years 1 to 9999) are not modelled.
\<close>

record date =
  year :: int
  month :: int
  day :: int

definition date_key :: "date \<Rightarrow> int \<times> int \<times> int" where
  "date_key d = (year d, month d, day d)"

definition date_lt :: "date \<Rightarrow> date \<Rightarrow> bool" where
  "date_lt a b = (date_key a < date_key b)"

definition date_le :: "date \<Rightarrow> date \<Rightarrow> bool" where
  "date_le a b = (date_key a \<le> date_key b)"

text \<open>Python's \<^verbatim>\<open>min(a, b)\<close>: the first argument unless the second is smaller.\<close>

definition date_min :: "date \<Rightarrow> date \<Rightarrow> date" where
  "date_min a b = (if date_lt b a then b else a)"

definition is_leap :: "int \<Rightarrow> bool" where
  "is_leap y = (y mod 4 = 0 \<and> (y mod 100 \<noteq> 0 \<or> y mod 400 = 0))"

definition days_in_month :: "int \<Rightarrow> int \<Rightarrow> int" where
  "days_in_month y m =
     (if m = 2 then (if is_leap y then 29 else 28)
      else if m = 4 \<or> m = 6 \<or> m = 9 \<or> m = 11 then 30
      else 31)"

definition valid_date :: "date \<Rightarrow> bool" where
  "valid_date d =
     (1 \<le> month d \<and> month d \<le> 12 \<and> 1 \<le> day d \<and> day d \<le> days_in_month (year d) (month d))"

text \<open>
  The proleptic Gregorian ordinal (\<^verbatim>\<open>date.toordinal\<close>); the difference of two dates
  is the difference of their ordinals (\<^verbatim>\<open>(a - b).days\<close>).
\<close>

definition days_before_year :: "int \<Rightarrow> int" where
  "days_before_year y = (let p = y - 1 in p * 365 + p div 4 - p div 100 + p div 400)"

definition days_before_month :: "int \<Rightarrow> int \<Rightarrow> int" where
  "days_before_month y m =
     [0, 31, 59, 90, 120, 151, 181, 212, 243, 273, 304, 334] ! nat (m - 1)
       + (if m > 2 \<and> is_leap y then 1 else 0)"

definition toordinal :: "date \<Rightarrow> int" where
  "toordinal d = days_before_year (year d) + days_before_month (year d) (month d) + day d"

definition days_between :: "date \<Rightarrow> date \<Rightarrow> int" where
  "days_between a b = toordinal a - toordinal b"

text \<open>
  Adding a \<^verbatim>\<open>timedelta(days=n)\<close> moves the date \<open>n\<close> calendar days forward, or
  \<open>-n\<close> days back.
\<close>

definition next_day :: "date \<Rightarrow> date" where
  "next_day d =
     (if day d < days_in_month (year d) (month d) then d\<lparr>day := day d + 1\<rparr>
      else if month d < 12 then \<lparr>year = year d, month = month d + 1, day = 1\<rparr>
      else \<lparr>year = year d + 1, month = 1, day = 1\<rparr>)"

definition prev_day :: "date \<Rightarrow> date" where
  "prev_day d =
     (if 1 < day d then d\<lparr>day := day d - 1\<rparr>
      else if 1 < month d
        then \<lparr>year = year d, month = month d - 1, day = days_in_month (year d) (month d - 1)\<rparr>
      else \<lparr>year = year d - 1, month = 12, day = 31\<rparr>)"

fun step_days :: "(date \<Rightarrow> date) \<Rightarrow> nat \<Rightarrow> date \<Rightarrow> date" where
  "step_days f 0 d = d"
| "step_days f (Suc n) d = step_days f n (f d)"

definition date_add_days :: "date \<Rightarrow> int \<Rightarrow> date" where
  "date_add_days d n = (if 0 \<le> n then step_days next_day (nat n) d else step_days prev_day (nat (- n)) d)"

text \<open>
  \<^verbatim>\<open>dt + relativedelta(months=k)\<close>: the month index moves by \<open>k\<close> and the day is cut
  to the length of the month reached.
\<close>

definition add_months :: "date \<Rightarrow> int \<Rightarrow> date" where
  "add_months dt k =
     (let idx = year dt * 12 + (month dt - 1) + k;
          y = idx div 12;
          m = idx mod 12 + 1
      in \<lparr>year = y, month = m, day = min (days_in_month y m) (day dt)\<rparr>)"

text \<open>\<^verbatim>\<open>dt + relativedelta(months=k, days=n)\<close>: the months first, then the days.\<close>

definition add_relativedelta :: "date \<Rightarrow> int \<Rightarrow> int \<Rightarrow> date" where
  "add_relativedelta dt k n = date_add_days (add_months dt k) n"

lemma add_months_year:
  "year (add_months dt k) = (year dt * 12 + (month dt - 1) + k) div 12"
  by (simp add: add_months_def Let_def)

lemma date_lt_year: "date_lt a b \<Longrightarrow> year a \<le> year b"
  by (auto simp: date_lt_def date_key_def)

text \<open>
  \<^verbatim>\<open>relativedelta(dt1, dt2)\<close> starts from the difference of the month indices and
  moves it one month at a time while the shifted \<open>dt2\<close> overshoots \<open>dt1\<close>: upwards when
  \<open>dt1 < dt2\<close>, downwards otherwise.
\<close>

function rd_adjust :: "bool \<Rightarrow> date \<Rightarrow> date \<Rightarrow> int \<Rightarrow> int" where
  "rd_adjust up dt1 dt2 months =
     (let dtm = add_months dt2 months in
      if (if up then date_lt dtm dt1 else date_lt dt1 dtm)
      then rd_adjust up dt1 dt2 (months + (if up then 1 else - 1))
      else months)"
  by pat_completeness auto
termination
proof (relation "measure (\<lambda>(up, dt1, dt2, k).
          if up then nat (12 * year dt1 + 12 - (year dt2 * 12 + (month dt2 - 1)) - k)
          else nat (k - (12 * year dt1 - (year dt2 * 12 + (month dt2 - 1))) + 1))")
  show "wf (measure (\<lambda>(up, dt1, dt2, k).
          if up then nat (12 * year dt1 + 12 - (year dt2 * 12 + (month dt2 - 1)) - k)
          else nat (k - (12 * year dt1 - (year dt2 * 12 + (month dt2 - 1))) + 1)))"
    by simp
next
  fix up :: bool and dt1 dt2 :: date and months :: int and dtm :: date
  assume dtm: "dtm = add_months dt2 months"
    and c: "if up then date_lt dtm dt1 else date_lt dt1 dtm"
  show "((up, dt1, dt2, months + (if up then 1 else - 1)), (up, dt1, dt2, months))
        \<in> measure (\<lambda>(up, dt1, dt2, k).
          if up then nat (12 * year dt1 + 12 - (year dt2 * 12 + (month dt2 - 1)) - k)
          else nat (k - (12 * year dt1 - (year dt2 * 12 + (month dt2 - 1))) + 1))"
  proof (cases up)
    case True
    with c dtm have "(year dt2 * 12 + (month dt2 - 1) + months) div 12 \<le> year dt1"
      using date_lt_year [of dtm dt1] by (simp add: add_months_year)
    then have "year dt2 * 12 + (month dt2 - 1) + months < 12 * year dt1 + 12" by linarith
    with True show ?thesis by simp
  next
    case False
    with c dtm have "year dt1 \<le> (year dt2 * 12 + (month dt2 - 1) + months) div 12"
      using date_lt_year [of dt1 dtm] by (simp add: add_months_year)
    then have "12 * year dt1 \<le> year dt2 * 12 + (month dt2 - 1) + months" by linarith
    with False show ?thesis by simp
  qed
qed

declare rd_adjust.simps [simp del]

text \<open>
  The \<^verbatim>\<open>years\<close> and \<^verbatim>\<open>months\<close> fields of a relativedelta holding a total of
  \<open>months\<close> months (\<^verbatim>\<open>_set_months\<close>): the total is split once it exceeds 11 in
  absolute value.
\<close>

record relativedelta =
  rd_years :: int
  rd_months :: int

definition set_months :: "int \<Rightarrow> relativedelta" where
  "set_months months =
     (if \<bar>months\<bar> > 11
      then (let s = sgn months in
            \<lparr>rd_years = ((months * s) div 12) * s, rd_months = ((months * s) mod 12) * s\<rparr>)
      else \<lparr>rd_years = 0, rd_months = months\<rparr>)"

definition relativedelta_between :: "date \<Rightarrow> date \<Rightarrow> relativedelta" where
  "relativedelta_between dt1 dt2 =
     set_months (rd_adjust (date_lt dt1 dt2) dt1 dt2
                   ((year dt1 - year dt2) * 12 + (month dt1 - month dt2)))"

section \<open>Calendar and period engine (core/utils\_time.py, core/views.py)\<close>

record financial_year =
  start_date :: date
  end_date :: date

definition months_elapsed_in_fy :: "date \<Rightarrow> date \<Rightarrow> date \<Rightarrow> int" where
  "months_elapsed_in_fy start endd as_of =
     (if date_lt as_of start then 0
      else (let as_of' = (if date_lt endd as_of then endd else as_of);
                rd = relativedelta_between as_of' start
            in rd_years rd * 12 + rd_months rd + 1))"

definition quarter_end_for :: "financial_year \<Rightarrow> date \<Rightarrow> date" where
  "quarter_end_for fin_year as_of =
     (let start = start_date fin_year;
          endd = end_date fin_year;
          m = months_elapsed_in_fy start endd as_of;
          q_index = (if m \<le> 0 then 1 else min 4 ((m + 2) div 3));
          q_start = add_relativedelta start ((q_index - 1) * 3) 0;
          q_end = add_relativedelta q_start 3 (- 1)
      in if date_lt endd q_end then endd else q_end)"

text \<open>
  The \<^verbatim>\<open>QUARTER_LOCK\<close> dictionary of the settings: a key that is absent is \<open>None\<close>
  (an absent dictionary has both absent).  \<open>now\<close> is the clock read when the caller
  passes no \<open>today\<close>.
\<close>

record quarter_lock =
  ENABLED :: "bool option"
  GRACE_DAYS :: "int option"

definition is_period_locked ::
  "quarter_lock \<Rightarrow> date \<Rightarrow> financial_year \<Rightarrow> date \<Rightarrow> date option \<Rightarrow> bool" where
  "is_period_locked cfg now fin_year period_end today =
     (let enabled = (case ENABLED cfg of None \<Rightarrow> False | Some b \<Rightarrow> b);
          grace_days = (case GRACE_DAYS cfg of None \<Rightarrow> 14 | Some g \<Rightarrow> g)
      in if \<not> enabled then False
         else (let today' = (case today of None \<Rightarrow> now | Some t \<Rightarrow> t);
                   q_end = quarter_end_for fin_year period_end
               in date_lt (date_add_days q_end grace_days) today'))"

definition fy_bounds :: "financial_year \<Rightarrow> date \<times> date" where
  "fy_bounds fin_year = (start_date fin_year, end_date fin_year)"

definition months_elapsed :: "financial_year \<Rightarrow> date \<Rightarrow> int" where
  "months_elapsed fin_year as_of =
     (let (start, endd) = fy_bounds fin_year in
      if date_lt as_of start then 0
      else (let as_of' = (if date_lt endd as_of then endd else as_of);
                rd = relativedelta_between as_of' start
            in rd_years rd * 12 + rd_months rd + 1))"

definition quarters_elapsed :: "financial_year \<Rightarrow> date \<Rightarrow> int" where
  "quarters_elapsed fin_year as_of = (let m = months_elapsed fin_year as_of in min 4 ((m + 2) div 3))"

section \<open>Targets, progress updates and cost lines (progress/models.py)\<close>

text \<open>
  A \<^verbatim>\<open>Decimal\<close> is the rational number it denotes (its exponent, and with it the
  trailing zeros it prints, is not kept).  The arithmetic is that of Python's default
  decimal context: the exact sum, difference, product or quotient is rounded to 28
  significant digits, a tie going to the even neighbour (\<^verbatim>\<open>ROUND_HALF_EVEN\<close>); the
  limits on the exponent are out of reach of the program's numbers and are left out.
  \<open>int_digits n\<close> is the number of decimal digits of \<open>n\<close> and \<open>adjusted x\<close>, for a
  positive \<open>x\<close>, the exponent of its leading digit.
\<close>

function int_digits :: "int \<Rightarrow> nat" where
  "int_digits n = (if n < 10 then 1 else Suc (int_digits (n div 10)))"
  by pat_completeness auto
termination
  by (relation "measure nat") auto

declare int_digits.simps [simp del]

definition round_half_even :: "rat \<Rightarrow> int" where
  "round_half_even x =
     (let f = \<lfloor>x\<rfloor>; d = x - of_int f
      in if d < 1 / 2 then f
         else if 1 / 2 < d then f + 1
         else if even f then f else f + 1)"

definition adjusted :: "rat \<Rightarrow> int" where
  "adjusted x =
     (if 1 \<le> x then int (int_digits \<lfloor>x\<rfloor>) - 1
      else - int (int_digits (\<lceil>1 / x\<rceil> - 1)))"

definition pow10 :: "int \<Rightarrow> rat" where
  "pow10 k = (if 0 \<le> k then 10 ^ nat k else 1 / 10 ^ nat (- k))"

definition round28 :: "rat \<Rightarrow> rat" where
  "round28 x =
     (if x = 0 then 0
      else (let s = pow10 (27 - adjusted \<bar>x\<bar>)
            in of_int (round_half_even (x * s)) / s))"

definition dec_add :: "rat \<Rightarrow> rat \<Rightarrow> rat" where
  "dec_add a b = round28 (a + b)"


definition dec_mul :: "rat \<Rightarrow> rat \<Rightarrow> rat" where
  "dec_mul a b = round28 (a * b)"

text \<open>
  Dividing by zero raises, so a quotient is a result: \<open>Inl\<close> the exception, \<open>Inr\<close>
  the value.
\<close>

datatype py_error = DivisionByZero | IntegrityError

definition dec_div :: "rat \<Rightarrow> rat \<Rightarrow> py_error + rat" where
  "dec_div a b = (if b = 0 then Inl DivisionByZero else Inr (round28 (a / b)))"

text \<open>\<open>(a / b) * c\<close>, the shape of every percentage of the program.\<close>

definition dec_div_mul :: "rat \<Rightarrow> rat \<Rightarrow> rat \<Rightarrow> py_error + rat" where
  "dec_div_mul a b c = (case dec_div a b of Inl e \<Rightarrow> Inl e | Inr q \<Rightarrow> Inr (dec_mul q c))"

record target =
  target_id :: nat
  plan_item_id :: nat
  target_value :: rat
  periodicity :: string
  green_threshold :: rat
  amber_threshold :: rat
  target_is_active :: bool

record progress_update =
  pu_id :: nat
  pu_target :: nat
  period_type :: string
  period_start :: date
  period_end :: date
  period_name :: string
  actual_value :: rat
  narrative :: string
  evidence_urls :: "string list"
  risk_rating :: string
  issues :: string
  corrective_actions :: string
  forecast_value :: "rat option"
  forecast_confidence :: string
  is_submitted :: bool
  submitted_at :: "nat option"
  is_approved :: bool
  approved_at :: "nat option"
  pu_is_active :: bool
  created_by :: "nat option"
  updated_by :: "nat option"



text \<open>
  The table of progress updates is a list of rows, in the order of their insertion.
  \<open>target.progress_updates\<close> is the rows of the target.  \<open>order_by('period_end')\<close>
  and \<open>order_by('-period_end')\<close> sort on the date, upwards and downwards; rows of
  equal date stay in the order of the table in both, so that \<open>.first()\<close> of the
  descending order is, among the rows of the latest date, the one inserted first.
\<close>

definition order_by_desc :: "('a \<Rightarrow> 'k::linorder) \<Rightarrow> 'a list \<Rightarrow> 'a list" where
  "order_by_desc f xs = rev (sort_key f (rev xs))"

definition progress_updates :: "target \<Rightarrow> progress_update list \<Rightarrow> progress_update list" where
  "progress_updates t db = filter (\<lambda>u. pu_target u = target_id t) db"

definition first_row :: "'a list \<Rightarrow> 'a option" where
  "first_row xs = (case xs of [] \<Rightarrow> None | x # _ \<Rightarrow> Some x)"

definition get_latest_progress :: "target \<Rightarrow> progress_update list \<Rightarrow> progress_update option" where
  "get_latest_progress t db =
     first_row (order_by_desc (\<lambda>u. date_key (period_end u))
                  (filter pu_is_active (progress_updates t db)))"

definition get_rag_status :: "target \<Rightarrow> progress_update list \<Rightarrow> string" where
  "get_rag_status t db =
     (case get_latest_progress t db of
        None \<Rightarrow> ''GREY''
      | Some latest_update \<Rightarrow>
          (let actual = actual_value latest_update in
           if actual \<ge> green_threshold t then ''GREEN''
           else if actual \<ge> amber_threshold t then ''AMBER''
           else ''RED''))"

text \<open>
  \<open>Target.ytd_target\<close> reads the clock and, for an annual target, divides in binary
  floating point; its value at the time of the call is the parameter \<open>ytd_target\<close>.
  The quotient of \<open>calculate_rag_status\<close> is formed only after the test
  \<open>ytd_target == 0\<close> has failed.
\<close>

definition calculate_rag_status ::
  "rat \<Rightarrow> target \<Rightarrow> progress_update list \<Rightarrow> rat option \<Rightarrow> string" where
  "calculate_rag_status ytd_target t db actual_value_arg =
     (case (case actual_value_arg of
              Some a \<Rightarrow> Some a
            | None \<Rightarrow> map_option actual_value (get_latest_progress t db)) of
        None \<Rightarrow> ''GREY''
      | Some a \<Rightarrow>
          if ytd_target = 0 then ''GREY''
          else (let percentage = dec_mul (round28 (a / ytd_target)) 100 in
                if percentage \<ge> green_threshold t then ''GREEN''
                else if percentage \<ge> amber_threshold t then ''AMBER''
                else ''RED''))"

definition rag_status :: "rat \<Rightarrow> target \<Rightarrow> progress_update list \<Rightarrow> progress_update \<Rightarrow> string" where
  "rag_status ytd_target t db u = calculate_rag_status ytd_target t db (Some (actual_value u))"









text \<open>
  \<open>ProgressUpdate.is_evidence_required\<close>.  \<open>evidence_cfg\<close> is the setting
  \<open>EVIDENCE_REQUIRED_AFTER_MONTHS\<close> (\<open>None\<close> when absent, read as 2); \<open>t\<close> is
  \<open>self.target\<close>.  The loop over the query is \<open>count_red_amber\<close>.
\<close>

definition is_red_amber :: "string \<Rightarrow> bool" where
  "is_red_amber s = (s = ''RED'' \<or> s = ''AMBER'')"

fun count_red_amber :: "(progress_update \<Rightarrow> string) \<Rightarrow> int \<Rightarrow> progress_update list \<Rightarrow> int" where
  "count_red_amber rag red_amber_count [] = red_amber_count"
| "count_red_amber rag red_amber_count (update # rest) =
     (if is_red_amber (rag update) then count_red_amber rag (red_amber_count + 1) rest
      else count_red_amber rag 0 rest)"

definition consecutive_updates ::
  "int \<Rightarrow> target \<Rightarrow> progress_update list \<Rightarrow> progress_update \<Rightarrow> progress_update list" where
  "consecutive_updates evidence_months t db self =
     (let cutoff_date = add_relativedelta (period_end self) (- evidence_months) 0
      in sort_key (\<lambda>u. date_key (period_end u))
           (filter (\<lambda>u. pu_target u = target_id t
                        \<and> date_le cutoff_date (period_end u)
                        \<and> date_le (period_end u) (period_end self)
                        \<and> pu_is_active u) db))"

definition is_evidence_required ::
  "int option \<Rightarrow> rat \<Rightarrow> target \<Rightarrow> progress_update list \<Rightarrow> progress_update \<Rightarrow> bool" where
  "is_evidence_required evidence_cfg ytd_target t db self =
     (if is_red_amber (rag_status ytd_target t db self)
      then (let evidence_months = (case evidence_cfg of None \<Rightarrow> 2 | Some n \<Rightarrow> n);
                red_amber_count = count_red_amber (rag_status ytd_target t db) 0
                                    (consecutive_updates evidence_months t db self)
            in red_amber_count \<ge> evidence_months)
      else False)"

section \<open>Year-to-date figures and RAG classification (core/views.py)\<close>

definition sum_actuals_ytd :: "target \<Rightarrow> financial_year \<Rightarrow> date \<Rightarrow> progress_update list \<Rightarrow> rat" where
  "sum_actuals_ytd t fin_year as_of db =
     (let (start, endd) = fy_bounds fin_year;
          endd = date_min endd as_of;
          agg = map actual_value
                  (filter (\<lambda>u. date_le start (period_end u) \<and> date_le (period_end u) endd
                               \<and> pu_is_active u)
                     (progress_updates t db))
      in foldl (\<lambda>total v. dec_add total v) 0 agg)"

definition ytd_target_value :: "target \<Rightarrow> financial_year \<Rightarrow> date \<Rightarrow> py_error + rat" where
  "ytd_target_value t fin_year as_of =
     (let total = target_value t;
          per = periodicity t
      in if per = ''ANNUAL''
         then (let (start, endd) = fy_bounds fin_year;
                   end_cut = date_min endd as_of;
                   elapsed_days = days_between end_cut start + 1;
                   total_days = days_between endd start + 1
               in if total_days \<noteq> 0
                  then dec_div (dec_mul total (of_int elapsed_days)) (of_int total_days)
                  else Inr 0)
         else if per = ''MONTHLY''
         then (let m = months_elapsed fin_year as_of in dec_div_mul total 12 (of_int m))
         else if per = ''QUARTERLY''
         then (let q = quarters_elapsed fin_year as_of in dec_div_mul total 4 (of_int q))
         else Inr total)"

text \<open>
  \<open>compute_percent\<close>: \<open>not ytd_target\<close> holds for \<open>None\<close> and for zero, so the
  target is optional here.
\<close>

definition compute_percent :: "rat \<Rightarrow> rat option \<Rightarrow> py_error + rat" where
  "compute_percent ytd_actual ytd_target =
     (case ytd_target of
        None \<Rightarrow> Inr 0
      | Some tgt \<Rightarrow> if tgt = 0 then Inr 0 else dec_div_mul ytd_actual tgt 100)"

definition compute_rag_from_percent :: "rat \<Rightarrow> target option \<Rightarrow> string" where
  "compute_rag_from_percent percent tgt =
     (let green = (case tgt of None \<Rightarrow> 95 | Some t \<Rightarrow> green_threshold t);
          amber = (case tgt of None \<Rightarrow> 80 | Some t \<Rightarrow> amber_threshold t)
      in if percent \<ge> green then ''GREEN''
         else if percent \<ge> amber then ''AMBER''
         else ''RED'')"




text \<open>
  The drill-down view classifies each active target of a plan item from its
  year-to-date percentage and rolls the item up to its worst target; \<open>GREY\<close> is left
  for an item none of whose targets was counted.
\<close>

definition drilldown_target_rag ::
  "target \<Rightarrow> financial_year \<Rightarrow> date \<Rightarrow> progress_update list \<Rightarrow> py_error + string" where
  "drilldown_target_rag t fin_year as_of db =
     (case ytd_target_value t fin_year as_of of
        Inl e \<Rightarrow> Inl e
      | Inr t_ytd_tgt \<Rightarrow>
          (let t_ytd_act = sum_actuals_ytd t fin_year as_of db in
           case compute_percent t_ytd_act (Some t_ytd_tgt) of
             Inl e \<Rightarrow> Inl e
           | Inr t_percent \<Rightarrow> Inr (compute_rag_from_percent t_percent (Some t))))"

fun rag_counts ::
  "financial_year \<Rightarrow> date \<Rightarrow> progress_update list \<Rightarrow> nat \<times> nat \<times> nat \<Rightarrow> target list
     \<Rightarrow> py_error + nat \<times> nat \<times> nat" where
  "rag_counts fin_year as_of db counts [] = Inr counts"
| "rag_counts fin_year as_of db (g, a, r) (t # ts) =
     (case drilldown_target_rag t fin_year as_of db of
        Inl e \<Rightarrow> Inl e
      | Inr t_rag \<Rightarrow>
          rag_counts fin_year as_of db
            (if t_rag = ''GREEN'' then (g + 1, a, r)
             else if t_rag = ''AMBER'' then (g, a + 1, r)
             else (g, a, r + 1)) ts)"

definition drilldown_item_rag ::
  "nat \<Rightarrow> target list \<Rightarrow> financial_year \<Rightarrow> date \<Rightarrow> progress_update list \<Rightarrow> py_error + string" where
  "drilldown_item_rag item targets fin_year as_of db =
     (case rag_counts fin_year as_of db (0, 0, 0)
             (filter (\<lambda>t. plan_item_id t = item \<and> target_is_active t) targets) of
        Inl e \<Rightarrow> Inl e
      | Inr (g, a, r) \<Rightarrow>
          Inr (if r \<noteq> 0 then ''RED''
               else if a \<noteq> 0 then ''AMBER''
               else if g \<noteq> 0 then ''GREEN''
               else ''GREY''))"

section \<open>The draft endpoint and the update views (core/api\_views.py, core/views.py, core/views\_manager.py)\<close>

text \<open>
  What a request handler reads besides the table of progress updates: the targets,
  the permission check of the user's profile on the plan item of a target (False for
  a user without profile), the financial year of a target's KPA, the quarter lock
  settings, the clock, the user, and the identifier a new row gets.  Three functions
  stand for library code the handlers call: \<open>env_fromisoformat\<close> for
  \<^verbatim>\<open>datetime.fromisoformat(s).date()\<close> (\<open>None\<close> when it raises), \<open>env_field_date\<close> for
  the date field of the serializer, and \<open>env_other_validators\<close> for the checks of the
  serializer on the fields that take no part in what follows (choices, lengths,
  number of digits).
\<close>

datatype evidence_input = EvidenceText string | EvidenceList "string list"

record draft_payload =
  p_target :: "nat option"
  p_target_id :: "nat option"
  p_period_type :: "string option"
  p_period_start :: "string option"
  p_period_end :: "string option"
  p_period_name :: "string option"
  p_actual_value :: "rat option"
  p_narrative :: "string option"
  p_evidence_urls :: "evidence_input option"
  p_risk_rating :: "string option"
  p_issues :: "string option"
  p_corrective_actions :: "string option"
  p_forecast_value :: "rat option option"
  p_forecast_confidence :: "string option"
  p_is_submitted :: "bool option"
  p_is_approved :: "bool option"

text \<open>
  \<open>validated_data\<close> (and the cleaned data of the form): the six fields the model
  declares without default or blank are there; every other field is there only if the
  request gave it.
\<close>

record validated_data =
  v_target :: nat
  v_period_type :: "string option"
  v_period_start :: date
  v_period_end :: date
  v_period_name :: string
  v_actual_value :: rat
  v_narrative :: string
  v_evidence_urls :: "string list option"
  v_risk_rating :: "string option"
  v_issues :: "string option"
  v_corrective_actions :: "string option"
  v_forecast_value :: "rat option option"
  v_forecast_confidence :: "string option"
  v_is_submitted :: "bool option"
  v_is_approved :: "bool option"

record api_env =
  env_targets :: "target list"
  env_can_edit_plan_item :: "target \<Rightarrow> bool"
  env_financial_year :: "target \<Rightarrow> financial_year"
  env_quarter_lock :: quarter_lock
  env_today :: date
  env_now :: nat
  env_user :: nat
  env_fresh_id :: nat
  env_fromisoformat :: "string \<Rightarrow> date option"
  env_field_date :: "string \<Rightarrow> date option"
  env_other_validators :: "draft_payload \<Rightarrow> progress_update list \<Rightarrow> bool"
  env_period_label :: "target \<Rightarrow> date \<Rightarrow> string"

datatype response =
    HTTP_200_OK nat
  | HTTP_400_BAD_REQUEST
  | HTTP_403_FORBIDDEN
  | HTTP_423_LOCKED
  | Unhandled py_error

text \<open>\<open>get_object_or_404(Target, id=target_id)\<close>: \<open>None\<close> when it raises.\<close>

definition get_target :: "api_env \<Rightarrow> nat option \<Rightarrow> target option" where
  "get_target env tid =
     (case tid of
        None \<Rightarrow> None
      | Some i \<Rightarrow> find (\<lambda>t. target_id t = i) (env_targets env))"

text \<open>
  \<open>str.strip\<close> and \<open>str.splitlines\<close>.  A character is a code point below 256:
  the white space of \<open>str.isspace\<close> there is the blank, 0x09 to 0x0D, 0x1C to 0x1F,
  0x85 and 0xA0, and a line ends at 0x0A to 0x0D (0x0D 0x0A being one end), 0x1C to
  0x1E and 0x85.
\<close>

definition is_space :: "char \<Rightarrow> bool" where
  "is_space c = (c = CHR '' '' \<or> c = CHR 0x09 \<or> c = CHR 0x0A \<or> c = CHR 0x0B
                 \<or> c = CHR 0x0C \<or> c = CHR 0x0D \<or> c = CHR 0x1C \<or> c = CHR 0x1D
                 \<or> c = CHR 0x1E \<or> c = CHR 0x1F \<or> c = CHR 0x85 \<or> c = CHR 0xA0)"

definition py_strip :: "string \<Rightarrow> string" where
  "py_strip s = rev (dropWhile is_space (rev (dropWhile is_space s)))"

fun splitlines_from :: "string \<Rightarrow> string \<Rightarrow> string list" where
  "splitlines_from cur [] = (if cur = [] then [] else [rev cur])"
| "splitlines_from cur (c # cs) =
     (if c = CHR 0x0D
      then (case cs of
              c' # cs' \<Rightarrow> if c' = CHR 0x0A then rev cur # splitlines_from [] cs'
                         else rev cur # splitlines_from [] cs
            | [] \<Rightarrow> [rev cur])
      else if c = CHR 0x0A \<or> c = CHR 0x0B \<or> c = CHR 0x0C \<or> c = CHR 0x1C \<or> c = CHR 0x1D
              \<or> c = CHR 0x1E \<or> c = CHR 0x85
      then rev cur # splitlines_from [] cs
      else splitlines_from (c # cur) cs)"

definition py_splitlines :: "string \<Rightarrow> string list" where
  "py_splitlines s = splitlines_from [] s"

definition normalize_evidence :: "evidence_input \<Rightarrow> string list" where
  "normalize_evidence ev =
     (case ev of
        EvidenceText s \<Rightarrow> map py_strip (filter (\<lambda>l. py_strip l \<noteq> []) (py_splitlines s))
      | EvidenceList ls \<Rightarrow> map py_strip (filter (\<lambda>l. py_strip l \<noteq> []) ls))"

text \<open>
  \<open>ProgressUpdateSerializer(data=payload)\<close>: \<open>is_valid\<close> and \<open>validated_data\<close> in
  one, \<open>None\<close> for an invalid payload.  The evidence list has been normalised by the
  caller and is passed beside the payload.  The serializer is a model serializer made
  without an instance, so for \<open>unique_together\<close> of the model's \<open>Meta\<close> it carries
  a validator that refuses a payload whose target, period start and period end are
  those of a row of the table, whichever row that is.
\<close>

definition pu_key :: "progress_update \<Rightarrow> nat \<times> date \<times> date" where
  "pu_key r = (pu_target r, period_start r, period_end r)"

definition unique_together_validator :: "progress_update list \<Rightarrow> nat \<times> date \<times> date \<Rightarrow> bool" where
  "unique_together_validator db key = (\<not> list_ex (\<lambda>r. pu_key r = key) db)"

definition progress_update_serializer ::
  "api_env \<Rightarrow> progress_update list \<Rightarrow> draft_payload \<Rightarrow> string list option \<Rightarrow> validated_data option" where
  "progress_update_serializer env db payload evidence =
     (case (Option.bind (p_target payload) (\<lambda>i. get_target env (Some i)),
            Option.bind (p_period_start payload) (env_field_date env),
            Option.bind (p_period_end payload) (env_field_date env),
            p_period_name payload, p_actual_value payload, p_narrative payload) of
        (Some t, Some ps, Some pe, Some name, Some actual, Some text) \<Rightarrow>
          if unique_together_validator db (target_id t, ps, pe)
             \<and> env_other_validators env payload db
          then Some \<lparr>v_target = target_id t, v_period_type = p_period_type payload,
                     v_period_start = ps, v_period_end = pe, v_period_name = name,
                     v_actual_value = actual, v_narrative = text,
                     v_evidence_urls = evidence,
                     v_risk_rating = p_risk_rating payload, v_issues = p_issues payload,
                     v_corrective_actions = p_corrective_actions payload,
                     v_forecast_value = p_forecast_value payload,
                     v_forecast_confidence = p_forecast_confidence payload,
                     v_is_submitted = p_is_submitted payload,
                     v_is_approved = p_is_approved payload\<rparr>
          else None
      | _ \<Rightarrow> None)"

text \<open>Setting the validated fields on a row, field by field.\<close>

definition or_keep :: "'a option \<Rightarrow> 'a \<Rightarrow> 'a" where
  "or_keep new old = (case new of None \<Rightarrow> old | Some x \<Rightarrow> x)"

definition set_validated :: "validated_data \<Rightarrow> progress_update \<Rightarrow> progress_update" where
  "set_validated v row =
     row\<lparr>pu_target := v_target v,
         period_type := or_keep (v_period_type v) (period_type row),
         period_start := v_period_start v,
         period_end := v_period_end v,
         period_name := v_period_name v,
         actual_value := v_actual_value v,
         narrative := v_narrative v,
         evidence_urls := or_keep (v_evidence_urls v) (evidence_urls row),
         risk_rating := or_keep (v_risk_rating v) (risk_rating row),
         issues := or_keep (v_issues v) (issues row),
         corrective_actions := or_keep (v_corrective_actions v) (corrective_actions row),
         forecast_value := or_keep (v_forecast_value v) (forecast_value row),
         forecast_confidence := or_keep (v_forecast_confidence v) (forecast_confidence row),
         is_submitted := or_keep (v_is_submitted v) (is_submitted row),
         is_approved := or_keep (v_is_approved v) (is_approved row)\<rparr>"

text \<open>A new instance carries the defaults of the model's fields.\<close>

definition new_progress_update :: "nat \<Rightarrow> progress_update" where
  "new_progress_update i =
     \<lparr>pu_id = i, pu_target = 0, period_type = ''MONTHLY'',
      period_start = \<lparr>year = 1, month = 1, day = 1\<rparr>,
      period_end = \<lparr>year = 1, month = 1, day = 1\<rparr>,
      period_name = [], actual_value = 0, narrative = [], evidence_urls = [],
      risk_rating = ''LOW'', issues = [], corrective_actions = [], forecast_value = None,
      forecast_confidence = ''MEDIUM'', is_submitted = False, submitted_at = None,
      is_approved = False, approved_at = None, pu_is_active = True,
      created_by = None, updated_by = None\<rparr>"

text \<open>
  \<open>ProgressUpdate.save\<close> stamps a submitted or approved row that has no stamp yet,
  then writes the row: an insert for a new instance, refused by the database when the
  primary key or the triple (target, period\_start, period\_end) of
  \<open>unique_together\<close> is taken; an update of the row with its primary key otherwise.
\<close>

definition stamp :: "nat \<Rightarrow> progress_update \<Rightarrow> progress_update" where
  "stamp now row =
     row\<lparr>submitted_at := (if is_submitted row \<and> submitted_at row = None then Some now
                           else submitted_at row),
         approved_at := (if is_approved row \<and> approved_at row = None then Some now
                          else approved_at row)\<rparr>"

definition save_new :: "nat \<Rightarrow> progress_update list \<Rightarrow> progress_update
    \<Rightarrow> py_error + progress_update list" where
  "save_new now db row =
     (if list_ex (\<lambda>r. pu_id r = pu_id row \<or> pu_key r = pu_key row) db
      then Inl IntegrityError
      else Inr (db @ [stamp now row]))"

definition save_existing :: "nat \<Rightarrow> progress_update list \<Rightarrow> progress_update
    \<Rightarrow> py_error + progress_update list" where
  "save_existing now db row =
     (if list_ex (\<lambda>r. pu_id r \<noteq> pu_id row \<and> pu_key r = pu_key row) db
      then Inl IntegrityError
      else Inr (map (\<lambda>r. if pu_id r = pu_id row then stamp now row else r) db))"

text \<open>
  What the database guarantees of the table: the primary key and the triple of
  \<open>unique_together\<close> each identify one row.
\<close>

definition db_ok :: "progress_update list \<Rightarrow> bool" where
  "db_ok db = (distinct (map pu_id db) \<and> distinct (map pu_key db))"

text \<open>
  \<open>ProgressUpdateViewSet.save_draft\<close>: the response and the table after the request.
  An exception in the lock check is swallowed and the request goes on.
\<close>

definition save_draft ::
  "api_env \<Rightarrow> progress_update list \<Rightarrow> draft_payload \<Rightarrow> response \<times> progress_update list" where
  "save_draft env db payload =
     (case get_target env (case p_target payload of Some i \<Rightarrow> Some i
                                                  | None \<Rightarrow> p_target_id payload) of
        None \<Rightarrow> (HTTP_400_BAD_REQUEST, db)
      | Some t \<Rightarrow>
          if \<not> env_can_edit_plan_item env t then (HTTP_403_FORBIDDEN, db)
          else if (case p_period_end payload of
                     None \<Rightarrow> False
                   | Some s \<Rightarrow>
                       s \<noteq> [] \<and>
                       (case env_fromisoformat env s of
                          None \<Rightarrow> False
                        | Some period_end_dt \<Rightarrow>
                            is_period_locked (env_quarter_lock env) (env_today env)
                              (env_financial_year env t) period_end_dt None))
          then (HTTP_423_LOCKED, db)
          else
            (let evidence = map_option normalize_evidence (p_evidence_urls payload);
                 payload = payload\<lparr>p_is_submitted := Some False\<rparr>
             in case progress_update_serializer env db payload evidence of
                  None \<Rightarrow> (HTTP_400_BAD_REQUEST, db)
                | Some v \<Rightarrow>
                    (case find (\<lambda>r. pu_target r = target_id t
                                     \<and> period_start r = v_period_start v
                                     \<and> period_end r = v_period_end v
                                     \<and> \<not> is_submitted r \<and> pu_is_active r) db of
                       Some existing \<Rightarrow>
                         (let existing = (set_validated v existing)
                                           \<lparr>updated_by := Some (env_user env)\<rparr>
                          in case save_existing (env_now env) db existing of
                               Inl e \<Rightarrow> (Unhandled e, db)
                             | Inr db' \<Rightarrow> (HTTP_200_OK (pu_id existing), db'))
                     | None \<Rightarrow>
                         (let obj = (set_validated v (new_progress_update (env_fresh_id env)))
                                      \<lparr>created_by := Some (env_user env),
                                       updated_by := Some (env_user env)\<rparr>
                          in case save_new (env_now env) db obj of
                               Inl e \<Rightarrow> (Unhandled e, db)
                             | Inr db' \<Rightarrow> (HTTP_200_OK (pu_id obj), db')))))"

text \<open>
  \<open>update_wizard_view\<close> on a POST.  \<open>form\<close> is the cleaned data of a valid form,
  \<open>None\<close> for an invalid one.  A locked period adds an error to the form, and a form
  with errors is shown again instead of being saved.
\<close>

datatype page =
    Redirect
  | FormShown bool
  | PermissionDenied
  | Http404
  | ServerError py_error

definition update_wizard_view ::
  "api_env \<Rightarrow> progress_update list \<Rightarrow> nat \<Rightarrow> validated_data option \<Rightarrow> page \<times> progress_update list" where
  "update_wizard_view env db tid form =
     (case get_target env (Some tid) of
        None \<Rightarrow> (Http404, db)
      | Some t \<Rightarrow>
          if \<not> env_can_edit_plan_item env t then (PermissionDenied, db)
          else (case form of
                  None \<Rightarrow> (FormShown True, db)
                | Some v \<Rightarrow>
                    (let form_errors =
                           is_period_locked (env_quarter_lock env) (env_today env)
                             (env_financial_year env t) (v_period_end v) None
                     in if form_errors then (FormShown True, db)
                        else (let upd = (set_validated v (new_progress_update (env_fresh_id env)))
                                          \<lparr>pu_target := tid,
                                           created_by := Some (env_user env),
                                           updated_by := Some (env_user env),
                                           is_submitted := True\<rparr>
                              in case save_new (env_now env) db upd of
                                   Inl e \<Rightarrow> (ServerError e, db)
                                 | Inr db' \<Rightarrow> (Redirect, db')))))"

text \<open>
  \<open>Target.get_current_period\<close> (start and end; the name is \<open>env_period_label\<close>) and the
  part of \<open>manager_progress_update_view\<close> that writes progress updates: the row of
  the current period is fetched or created on every request, and a valid progress
  form is saved into it.
\<close>

definition get_current_period :: "target \<Rightarrow> date \<Rightarrow> date \<times> date" where
  "get_current_period t d =
     (if periodicity t = ''monthly''
      then (let start = d\<lparr>day := 1\<rparr> in (start, date_add_days (add_months start 1) (- 1)))
      else if periodicity t = ''quarterly''
      then (let quarter = (month d - 1) div 3 + 1;
                start = \<lparr>year = year d, month = (quarter - 1) * 3 + 1, day = 1\<rparr>
            in (start, date_add_days (add_months start 3) (- 1)))
      else if periodicity t = ''annually''
      then (\<lparr>year = year d, month = 1, day = 1\<rparr>, \<lparr>year = year d, month = 12, day = 31\<rparr>)
      else (d, d))"

definition ascii_upper :: "char \<Rightarrow> char" where
  "ascii_upper c =
     (let n = (of_char c :: nat) in if 97 \<le> n \<and> n \<le> 122 then char_of (n - 32) else c)"

definition manager_progress_update_view ::
  "api_env \<Rightarrow> progress_update list \<Rightarrow> nat \<Rightarrow> validated_data option \<Rightarrow> page \<times> progress_update list" where
  "manager_progress_update_view env db tid post =
     (case find (\<lambda>t. target_id t = tid \<and> target_is_active t) (env_targets env) of
        None \<Rightarrow> (Http404, db)
      | Some t \<Rightarrow>
          if \<not> env_can_edit_plan_item env t then (Redirect, db)
          else
            (let (start, endd) = get_current_period t (env_today env);
                 found = find (\<lambda>r. pu_target r = tid \<and> period_start r = start
                                   \<and> period_end r = endd) db;
                 created = (new_progress_update (env_fresh_id env))
                             \<lparr>pu_target := tid, period_start := start, period_end := endd,
                              period_type := map ascii_upper (periodicity t),
                              period_name := env_period_label env t (env_today env),
                              actual_value := 0, narrative := [],
                              created_by := Some (env_user env)\<rparr>
             in case (case found of
                        Some r \<Rightarrow> Inr (r, db)
                      | None \<Rightarrow> map_sum id (\<lambda>db'. (stamp (env_now env) created, db'))
                                  (save_new (env_now env) db created)) of
                  Inl e \<Rightarrow> (ServerError e, db)
                | Inr (progress_update, db1) \<Rightarrow>
                    (case post of
                       None \<Rightarrow> (FormShown False, db1)
                     | Some v \<Rightarrow>
                         (let progress_update = (set_validated v progress_update)
                                                  \<lparr>updated_by := Some (env_user env)\<rparr>
                          in case save_existing (env_now env) db1 progress_update of
                               Inl e \<Rightarrow> (ServerError e, db1)
                             | Inr db2 \<Rightarrow> (Redirect, db2)))))"

text \<open>
  The two day counts as the specification words them: the days of the year elapsed up
  to the as-of date, cut to the year's end and counting the first day, and the days of
  the whole year.
\<close>

definition elapsed_days_in_fy :: "financial_year \<Rightarrow> date \<Rightarrow> int" where
  "elapsed_days_in_fy fy as_of = days_between (date_min as_of (end_date fy)) (start_date fy) + 1"

definition total_days_in_fy :: "financial_year \<Rightarrow> int" where
  "total_days_in_fy fy = days_between (end_date fy) (start_date fy) + 1"

section \<open>Example data\<close>

definition mk_date :: "int \<Rightarrow> int \<Rightarrow> int \<Rightarrow> date" where
  "mk_date y m d = \<lparr>year = y, month = m, day = d\<rparr>"

text \<open>The financial year of the repository's tests: 1 April 2024 to 31 March 2025.\<close>

definition fy_2024_25 :: financial_year where
  "fy_2024_25 = \<lparr>start_date = mk_date 2024 4 1, end_date = mk_date 2025 3 31\<rparr>"

text \<open>
  A target of 120 with the default thresholds, and monthly updates of it: 85 of a
  year-to-date target of 100 is amber, 97 is green.
\<close>

definition example_target :: "string \<Rightarrow> target" where
  "example_target per =
     \<lparr>target_id = 1, plan_item_id = 1, target_value = 120, periodicity = per,
      green_threshold = 95, amber_threshold = 80, target_is_active = True\<rparr>"

definition example_update :: "nat \<Rightarrow> date \<Rightarrow> date \<Rightarrow> rat \<Rightarrow> progress_update" where
  "example_update i ps pe v =
     \<lparr>pu_id = i, pu_target = 1, period_type = ''MONTHLY'', period_start = ps, period_end = pe,
      period_name = [], actual_value = v, narrative = [], evidence_urls = [],
      risk_rating = ''LOW'', issues = [], corrective_actions = [], forecast_value = None,
      forecast_confidence = ''MEDIUM'', is_submitted = True, submitted_at = None,
      is_approved = False, approved_at = None, pu_is_active = True,
      created_by = None, updated_by = None\<rparr>"

definition amber_april :: progress_update where
  "amber_april = example_update 1 (mk_date 2024 4 1) (mk_date 2024 4 30) 85"

definition amber_may :: progress_update where
  "amber_may = example_update 2 (mk_date 2024 5 1) (mk_date 2024 5 31) 85"

definition green_may :: progress_update where
  "green_may = example_update 2 (mk_date 2024 5 1) (mk_date 2024 5 31) 97"

definition amber_june :: progress_update where
  "amber_june = example_update 3 (mk_date 2024 6 1) (mk_date 2024 6 30) 85"

text \<open>
  A request context for the target above: every user may edit, dates are parsed from a
  small table, the choices and lengths of the payloads below are in order; the clock
  stands at 1 September 2024.  The payloads are those of the repository's draft tests.
\<close>

definition example_parse :: "string \<Rightarrow> date option" where
  "example_parse s =
     map_of [(''2024-04-01'', mk_date 2024 4 1), (''2024-06-30'', mk_date 2024 6 30),
             (''2024-05-01'', mk_date 2024 5 1), (''2024-05-31'', mk_date 2024 5 31)] s"

definition example_env :: "quarter_lock \<Rightarrow> api_env" where
  "example_env lock =
     \<lparr>env_targets = [example_target ''ANNUAL''],
      env_can_edit_plan_item = (\<lambda>t. True),
      env_financial_year = (\<lambda>t. fy_2024_25),
      env_quarter_lock = lock,
      env_today = mk_date 2024 9 1,
      env_now = 0, env_user = 7, env_fresh_id = 1,
      env_fromisoformat = example_parse,
      env_field_date = example_parse,
      env_other_validators = (\<lambda>p db. True),
      env_period_label = (\<lambda>t d. [])\<rparr>"

definition lock_off :: quarter_lock where
  "lock_off = \<lparr>ENABLED = Some False, GRACE_DAYS = Some 14\<rparr>"

definition lock_on :: quarter_lock where
  "lock_on = \<lparr>ENABLED = Some True, GRACE_DAYS = Some 14\<rparr>"

definition example_payload :: "string \<Rightarrow> rat \<Rightarrow> string \<Rightarrow> bool \<Rightarrow> draft_payload" where
  "example_payload pe a n sub =
     \<lparr>p_target = Some 1, p_target_id = None, p_period_type = Some ''MONTHLY'',
      p_period_start = Some ''2024-04-01'', p_period_end = Some pe,
      p_period_name = Some ''Q1 2024/25'', p_actual_value = Some a, p_narrative = Some n,
      p_evidence_urls = Some (EvidenceText ''http://a''), p_risk_rating = None,
      p_issues = None, p_corrective_actions = None, p_forecast_value = None,
      p_forecast_confidence = None, p_is_submitted = Some sub, p_is_approved = None\<rparr>"

definition example_form :: validated_data where
  "example_form =
     \<lparr>v_target = 1, v_period_type = Some ''MONTHLY'', v_period_start = mk_date 2024 5 1,
      v_period_end = mk_date 2024 5 31, v_period_name = ''May 2024'', v_actual_value = 10,
      v_narrative = ''late'', v_evidence_urls = Some [], v_risk_rating = Some ''LOW'',
      v_issues = Some [], v_corrective_actions = Some [], v_forecast_value = Some None,
      v_forecast_confidence = Some ''MEDIUM'', v_is_submitted = Some True,
      v_is_approved = None\<rparr>"

section \<open>Facts about dates and the month difference\<close>

lemma date_lt_irrefl: "\<not> date_lt d d"
  by (simp add: date_lt_def)

lemma date_lt_trans: "date_lt a b \<Longrightarrow> date_lt b c \<Longrightarrow> date_lt a c"
  unfolding date_lt_def by (rule less_trans)

lemma date_lt_asym: "date_lt a b \<Longrightarrow> \<not> date_lt b a"
  unfolding date_lt_def by (simp add: less_imp_not_less)

lemma date_le_iff: "date_le a b \<longleftrightarrow> \<not> date_lt b a"
  unfolding date_lt_def date_le_def by (rule linorder_not_less [symmetric])

lemma date_lt_next_day: "date_lt d (next_day d)"
  by (simp add: date_lt_def date_key_def next_day_def)

lemma step_days_last: "step_days f (Suc n) d = f (step_days f n d)"
  by (induction n arbitrary: d) simp_all

lemma date_add_days_succ: "0 \<le> n \<Longrightarrow> date_add_days d (n + 1) = next_day (date_add_days d n)"
  by (simp add: date_add_days_def nat_add_distrib step_days_last del: step_days.simps)

lemma set_months_total: "rd_years (set_months k) * 12 + rd_months (set_months k) = k"
proof -
  consider "k > 11" | "k < - 11" | "\<bar>k\<bar> \<le> 11" by linarith
  then show ?thesis
  proof cases
    case 1
    then show ?thesis by (simp add: set_months_def Let_def)
  next
    case 2
    then have y: "rd_years (set_months k) = - (- k div 12)"
      and m: "rd_months (set_months k) = - (- k mod 12)"
      by (simp_all add: set_months_def Let_def)
    show ?thesis unfolding y m using div_mult_mod_eq [of "- k" 12] by linarith
  next
    case 3
    then show ?thesis by (simp add: set_months_def)
  qed
qed

lemma div12_lex:
  "a < b \<Longrightarrow> a div 12 < b div 12 \<or> (a div 12 = b div 12 \<and> a mod 12 < b mod 12)"
  for a b :: int
proof -
  assume ab: "a < b"
  have le: "a div 12 \<le> b div 12" by (rule zdiv_mono1) (use ab in simp_all)
  have "a div 12 = b div 12 \<Longrightarrow> a mod 12 < b mod 12"
    using ab div_mult_mod_eq [of a 12] div_mult_mod_eq [of b 12] by linarith
  with le show ?thesis by linarith
qed

lemma month_index_div: "1 \<le> m \<Longrightarrow> m \<le> 12 \<Longrightarrow> (y * 12 + (m - 1)) div 12 = y"
  for y m :: int
  by linarith

lemma month_index_mod: "1 \<le> m \<Longrightarrow> m \<le> 12 \<Longrightarrow> (y * 12 + (m - 1)) mod 12 + 1 = m"
  for y m :: int
  using month_index_div [of m y] div_mult_mod_eq [of "y * 12 + (m - 1)" 12] by linarith

lemma add_months_zero: "valid_date d \<Longrightarrow> add_months d 0 = d"
  by (simp add: add_months_def Let_def valid_date_def month_index_div month_index_mod)

lemma add_months_mono: "k < k' \<Longrightarrow> date_lt (add_months d k) (add_months d k')"
proof -
  assume "k < k'"
  define a where "a = year d * 12 + (month d - 1) + k"
  define b where "b = year d * 12 + (month d - 1) + k'"
  have ab: "a < b" using \<open>k < k'\<close> by (simp add: a_def b_def)
  have "a div 12 < b div 12 \<or> (a div 12 = b div 12 \<and> a mod 12 < b mod 12)"
    using ab by (rule div12_lex)
  then show ?thesis
    unfolding date_lt_def date_key_def add_months_def Let_def a_def [symmetric] b_def [symmetric]
    by auto
qed

lemma quarters_ceiling: "min 4 ((m + 2) div 3) = min 4 (\<lceil>of_int m / (3::rat)\<rceil>)" for m :: int
proof -
  define q where "q = (m + 2) div 3"
  have lo: "3 * q - 3 < m" and hi: "m \<le> 3 * q" unfolding q_def by linarith+
  have "(of_int (3 * q - 3) :: rat) < of_int m" using lo by (simp only: of_int_less_iff)
  then have 1: "of_int q - 1 < of_int m / (3::rat)" by (simp add: field_simps)
  have "(of_int m :: rat) \<le> of_int (3 * q)" using hi by (simp only: of_int_le_iff)
  then have 2: "of_int m / (3::rat) \<le> of_int q" by (simp add: field_simps)
  have "\<lceil>of_int m / (3::rat)\<rceil> = q" using 1 2 by (simp add: ceiling_eq_iff)
  then show ?thesis by (simp add: q_def)
qed


lemma rd_adjust_down_exit: "\<not> date_lt dt1 (add_months dt2 (rd_adjust False dt1 dt2 k))"
proof (induction "False" dt1 dt2 k rule: rd_adjust.induct)
  case (1 dt1 dt2 months)
  show ?case
  proof (cases "date_lt dt1 (add_months dt2 months)")
    case True
    with 1 show ?thesis by (subst rd_adjust.simps) (simp add: Let_def)
  next
    case False
    then show ?thesis by (subst rd_adjust.simps) (simp add: Let_def)
  qed
qed

lemma rd_adjust_down_inv:
  "date_lt dt1 (add_months dt2 (k + 1)) \<Longrightarrow>
   date_lt dt1 (add_months dt2 (rd_adjust False dt1 dt2 k + 1))"
proof (induction "False" dt1 dt2 k rule: rd_adjust.induct)
  case (1 dt1 dt2 months)
  show ?case
  proof (cases "date_lt dt1 (add_months dt2 months)")
    case True
    with 1 show ?thesis by (subst rd_adjust.simps) (simp add: Let_def)
  next
    case False
    with 1 show ?thesis by (subst rd_adjust.simps) (simp add: Let_def)
  qed
qed

lemma month_diff_overshoot:
  assumes "1 \<le> month c" "month c \<le> 12"
  shows "date_lt c (add_months s ((year c - year s) * 12 + (month c - month s) + 1))"
proof -
  define i where "i = year c * 12 + (month c - 1)"
  have idx: "year s * 12 + (month s - 1) + ((year c - year s) * 12 + (month c - month s) + 1) = i + 1"
    by (simp add: i_def algebra_simps)
  have y: "i div 12 = year c" and m: "i mod 12 + 1 = month c"
    using assms unfolding i_def by (simp_all add: month_index_div month_index_mod)
  have "i div 12 < (i + 1) div 12 \<or> (i div 12 = (i + 1) div 12 \<and> i mod 12 < (i + 1) mod 12)"
    by (rule div12_lex) simp
  then show ?thesis
    unfolding date_lt_def date_key_def add_months_def Let_def idx
    using y m by auto
qed

lemma months_elapsed_in_fy_views:
  "months_elapsed fin_year as_of = months_elapsed_in_fy (start_date fin_year) (end_date fin_year) as_of"
  by (simp add: months_elapsed_def months_elapsed_in_fy_def fy_bounds_def)

lemma months_elapsed_before: "date_lt as_of start \<Longrightarrow> months_elapsed_in_fy start endd as_of = 0"
  by (simp add: months_elapsed_in_fy_def)

lemma months_elapsed_total:
  "\<not> date_lt as_of start \<Longrightarrow>
   months_elapsed_in_fy start endd as_of =
     rd_adjust (date_lt (if date_lt endd as_of then endd else as_of) start)
       (if date_lt endd as_of then endd else as_of) start
       ((year (if date_lt endd as_of then endd else as_of) - year start) * 12
         + (month (if date_lt endd as_of then endd else as_of) - month start)) + 1"
  by (simp add: months_elapsed_in_fy_def Let_def relativedelta_between_def set_months_total)

lemma months_elapsed_bracket:
  assumes ge: "\<not> date_lt c start" and mc: "1 \<le> month c" "month c \<le> 12"
  shows "\<not> date_lt c (add_months start (months_elapsed_in_fy start c c - 1))
         \<and> date_lt c (add_months start (months_elapsed_in_fy start c c))"
proof -
  let ?k = "(year c - year start) * 12 + (month c - month start)"
  have m: "months_elapsed_in_fy start c c = rd_adjust False c start ?k + 1"
    using months_elapsed_total [OF ge, of c] ge by (simp add: date_lt_irrefl)
  show ?thesis unfolding m
    using rd_adjust_down_exit [of c start ?k]
      rd_adjust_down_inv [OF month_diff_overshoot [OF mc, of start]]
    by simp
qed

lemma date_add_days_lt_succ: "0 \<le> n \<Longrightarrow> date_lt (date_add_days d n) (date_add_days d (n + 1))"
  by (simp add: date_add_days_succ date_lt_next_day)

lemma lock_config_cases:
  "is_period_locked cfg now fin_year pe today =
     (if ENABLED cfg = Some True
      then date_lt (date_add_days (quarter_end_for fin_year pe)
                      (case GRACE_DAYS cfg of None \<Rightarrow> 14 | Some g \<Rightarrow> g))
             (case today of None \<Rightarrow> now | Some t \<Rightarrow> t)
      else False)"
  by (auto simp: is_period_locked_def Let_def split: option.splits)

lemma months_elapsed_clamped:
  assumes "\<not> date_lt as_of start" "\<not> date_lt endd start"
  shows "months_elapsed_in_fy start endd as_of =
         months_elapsed_in_fy start (if date_lt endd as_of then endd else as_of)
           (if date_lt endd as_of then endd else as_of)"
  using assms by (simp add: months_elapsed_in_fy_def Let_def date_lt_irrefl)

lemma add_months_zero_le: "1 \<le> month d \<Longrightarrow> month d \<le> 12 \<Longrightarrow> \<not> date_lt d (add_months d 0)"
  by (simp add: add_months_def Let_def date_lt_def date_key_def month_index_div month_index_mod)

lemma months_elapsed_positive:
  assumes ge: "\<not> date_lt c start" and ms: "1 \<le> month start" "month start \<le> 12"
    and mc: "1 \<le> month c" "month c \<le> 12"
  shows "1 \<le> months_elapsed_in_fy start c c"
proof (rule ccontr)
  assume "\<not> 1 \<le> months_elapsed_in_fy start c c"
  then have le0: "months_elapsed_in_fy start c c \<le> 0" by simp
  have up: "date_lt c (add_months start (months_elapsed_in_fy start c c))"
    using months_elapsed_bracket [OF ge mc] by simp
  have "date_lt c (add_months start 0)"
  proof (cases "months_elapsed_in_fy start c c = 0")
    case True
    with up show ?thesis by simp
  next
    case False
    with le0 have "months_elapsed_in_fy start c c < 0" by simp
    from add_months_mono [OF this, of start] up show ?thesis by (rule date_lt_trans [rotated])
  qed
  moreover have "\<not> date_lt start (add_months start 0)" using ms by (rule add_months_zero_le)
  ultimately have "date_lt c start"
    unfolding date_lt_def by (meson less_le_trans not_less)
  with ge show False by simp
qed

lemma quarter_end_before_start:
  assumes "date_lt as_of (start_date fy)" "valid_date (start_date fy)"
  shows "quarter_end_for fy as_of =
         date_min (add_relativedelta (start_date fy) 3 (- 1)) (end_date fy)"
  using assms
  by (simp add: quarter_end_for_def Let_def months_elapsed_before add_relativedelta_def
      date_add_days_def add_months_zero date_min_def)

lemma quarter_end_at_start:
  assumes "valid_date (start_date fy)" "\<not> date_lt (end_date fy) (start_date fy)"
  shows "quarter_end_for fy (start_date fy) =
         date_min (add_relativedelta (start_date fy) 3 (- 1)) (end_date fy)"
proof -
  let ?s = "start_date fy"
  have z: "rd_adjust False ?s ?s 0 = 0"
    using assms(1) by (subst rd_adjust.simps) (simp add: add_months_zero date_lt_irrefl)
  have m: "months_elapsed_in_fy ?s (end_date fy) ?s = 1"
    using assms(2) z
    by (simp add: months_elapsed_in_fy_def Let_def date_lt_irrefl relativedelta_between_def
        set_months_total)
  show ?thesis
    using assms(1)
    by (simp add: quarter_end_for_def Let_def m add_relativedelta_def
        date_add_days_def add_months_zero date_min_def)
qed

lemma quarter_end_in_year:
  assumes "1 \<le> months_elapsed_in_fy (start_date fy) (end_date fy) as_of"
  shows "quarter_end_for fy as_of =
         date_min (add_relativedelta
                     (add_relativedelta (start_date fy) ((quarters_elapsed fy as_of - 1) * 3) 0)
                     3 (- 1))
           (end_date fy)"
  using assms
  by (simp add: quarter_end_for_def Let_def quarters_elapsed_def months_elapsed_in_fy_views
      date_min_def)

section \<open>The quarter lock\<close>

text \<open>
  Claim C5.  \<open>is_period_locked\<close> answers False whenever locking is not enabled in the
  configuration (an absent key counts as disabled).  When it is enabled, a period is
  locked exactly when today is later than the end of the quarter of \<open>period_end\<close> plus
  the grace days, 14 when the configuration names none; the inequality is strict.  With
  a grace of 14 days, today 13 or 14 days after the quarter's end is not locked and
  today 15 days after it is locked.
\<close>

theorem C5_is_period_locked:
  "(ENABLED cfg \<noteq> Some True \<longrightarrow> \<not> is_period_locked cfg now fin_year pe today)
   \<and> (ENABLED cfg = Some True \<longrightarrow>
        is_period_locked cfg now fin_year pe (Some t) =
          date_lt (date_add_days (quarter_end_for fin_year pe)
                     (case GRACE_DAYS cfg of None \<Rightarrow> 14 | Some g \<Rightarrow> g)) t)
   \<and> (ENABLED cfg = Some True \<and> (GRACE_DAYS cfg = None \<or> GRACE_DAYS cfg = Some 14) \<longrightarrow>
        \<not> is_period_locked cfg now fin_year pe
              (Some (date_add_days (quarter_end_for fin_year pe) 13))
        \<and> \<not> is_period_locked cfg now fin_year pe
              (Some (date_add_days (quarter_end_for fin_year pe) 14))
        \<and> is_period_locked cfg now fin_year pe
              (Some (date_add_days (quarter_end_for fin_year pe) 15)))"
proof -
  let ?q = "quarter_end_for fin_year pe"
  have a: "date_lt (date_add_days ?q 13) (date_add_days ?q 14)"
    using date_add_days_lt_succ [of 13 ?q] by simp
  have b: "date_lt (date_add_days ?q 14) (date_add_days ?q 15)"
    using date_add_days_lt_succ [of 14 ?q] by simp
  have c: "\<not> date_lt (date_add_days ?q 14) (date_add_days ?q 13)"
    using a by (rule date_lt_asym)
  show ?thesis
    using a b c by (auto simp: lock_config_cases date_lt_irrefl)
qed

text \<open>
  The tests' instance: the quarter of 31 May 2024 ends on 30 June 2024; 13 July is
  within the grace period and 15 July is past it; with locking disabled nothing is locked.
\<close>

lemma quarter_end_may_2024: "quarter_end_for fy_2024_25 (mk_date 2024 5 31) = mk_date 2024 6 30"
  by code_simp
lemma june_30_plus_13: "date_add_days (mk_date 2024 6 30) 13 = mk_date 2024 7 13"
  by code_simp
lemma june_30_plus_15: "date_add_days (mk_date 2024 6 30) 15 = mk_date 2024 7 15"
  by code_simp

theorem C5_is_period_locked_witness:
  "\<not> is_period_locked \<lparr>ENABLED = Some True, GRACE_DAYS = Some 14\<rparr> (mk_date 2024 8 1)
        fy_2024_25 (mk_date 2024 5 31) (Some (mk_date 2024 7 13))
   \<and> is_period_locked \<lparr>ENABLED = Some True, GRACE_DAYS = Some 14\<rparr> (mk_date 2024 8 1)
        fy_2024_25 (mk_date 2024 5 31) (Some (mk_date 2024 7 15))
   \<and> \<not> is_period_locked \<lparr>ENABLED = Some False, GRACE_DAYS = Some 14\<rparr> (mk_date 2024 8 1)
        fy_2024_25 (mk_date 2024 5 31) (Some (mk_date 2024 7 15))"
proof -
  let ?on = "\<lparr>ENABLED = Some True, GRACE_DAYS = Some 14\<rparr>"
  let ?off = "\<lparr>ENABLED = Some False, GRACE_DAYS = Some 14\<rparr>"
  have on: "ENABLED ?on = Some True \<and> (GRACE_DAYS ?on = None \<or> GRACE_DAYS ?on = Some 14)"
    by simp
  have off: "ENABLED ?off \<noteq> Some True" by simp
  have "\<not> is_period_locked ?on (mk_date 2024 8 1) fy_2024_25 (mk_date 2024 5 31)
            (Some (date_add_days (quarter_end_for fy_2024_25 (mk_date 2024 5 31)) 13))
        \<and> is_period_locked ?on (mk_date 2024 8 1) fy_2024_25 (mk_date 2024 5 31)
            (Some (date_add_days (quarter_end_for fy_2024_25 (mk_date 2024 5 31)) 15))"
    using C5_is_period_locked [of ?on "mk_date 2024 8 1" fy_2024_25 "mk_date 2024 5 31"] on
    by blast
  moreover have "\<not> is_period_locked ?off (mk_date 2024 8 1) fy_2024_25 (mk_date 2024 5 31)
            (Some (mk_date 2024 7 15))"
    using C5_is_period_locked [of ?off "mk_date 2024 8 1" fy_2024_25 "mk_date 2024 5 31"] off
    by blast
  ultimately show ?thesis unfolding quarter_end_may_2024 june_30_plus_13 june_30_plus_15 by blast
qed

section \<open>Months and quarters elapsed\<close>

text \<open>
  Claim C8.  For a date before the start of the financial year, the months elapsed are
  0 and \<open>quarter_end_for\<close> is the end of the first quarter: the start plus three months
  less a day, not later than the year's end, which is also the quarter end of the
  year's first day.  From the start on, the date is first cut to the year's end and
  the months elapsed are the 1-indexed number \<open>m\<close> of the month of the year it falls
  in, the start month included: the date lies between the start moved by \<open>m - 1\<close>
  months and the start moved by \<open>m\<close> months.  This holds of \<open>months_elapsed_in_fy\<close>
  and of its copy \<open>months_elapsed\<close> in the views, which agree everywhere.
  \<open>quarters_elapsed\<close> is the ceiling of a third of the months elapsed, at most 4, and
  from the start on \<open>quarter_end_for\<close> is the end of the quarter of that number: its
  first day is the start moved by three months for each earlier quarter, its last day
  three months less a day after that, and not later than the year's end.  In the year
  from 1 April 2024 to 31 March 2025 the quarter of 15 April 2024 ends on 30 June 2024.
\<close>

theorem C8_months_and_quarters:
  "(date_lt as_of (start_date fy) \<longrightarrow>
      months_elapsed fy as_of = 0
      \<and> months_elapsed_in_fy (start_date fy) (end_date fy) as_of = 0
      \<and> (valid_date (start_date fy) \<longrightarrow>
           quarter_end_for fy as_of =
             date_min (add_relativedelta (start_date fy) 3 (- 1)) (end_date fy)
           \<and> (\<not> date_lt (end_date fy) (start_date fy) \<longrightarrow>
                quarter_end_for fy as_of = quarter_end_for fy (start_date fy))))
   \<and> (\<not> date_lt as_of (start_date fy) \<and> \<not> date_lt (end_date fy) (start_date fy)
        \<and> valid_date (start_date fy) \<and> valid_date (end_date fy) \<and> valid_date as_of \<longrightarrow>
        (let c = (if date_lt (end_date fy) as_of then end_date fy else as_of);
             m = months_elapsed fy as_of
         in 1 \<le> m
            \<and> \<not> date_lt c (add_months (start_date fy) (m - 1))
            \<and> date_lt c (add_months (start_date fy) m)))
   \<and> months_elapsed_in_fy (start_date fy) (end_date fy) as_of = months_elapsed fy as_of
   \<and> (\<not> date_lt as_of (start_date fy) \<and> \<not> date_lt (end_date fy) (start_date fy)
        \<and> valid_date (start_date fy) \<and> valid_date (end_date fy) \<and> valid_date as_of \<longrightarrow>
        (let c = (if date_lt (end_date fy) as_of then end_date fy else as_of);
             m = months_elapsed_in_fy (start_date fy) (end_date fy) as_of
         in 1 \<le> m
            \<and> \<not> date_lt c (add_months (start_date fy) (m - 1))
            \<and> date_lt c (add_months (start_date fy) m))
        \<and> quarter_end_for fy as_of =
            date_min (add_relativedelta
                        (add_relativedelta (start_date fy) ((quarters_elapsed fy as_of - 1) * 3) 0)
                        3 (- 1))
              (end_date fy))
   \<and> quarters_elapsed fy as_of = min 4 \<lceil>of_int (months_elapsed fy as_of) / (3::rat)\<rceil>
   \<and> quarter_end_for fy_2024_25 (mk_date 2024 4 15) = mk_date 2024 6 30"
proof -
  let ?c = "if date_lt (end_date fy) as_of then end_date fy else as_of"
  let ?in_year = "\<not> date_lt as_of (start_date fy) \<and> \<not> date_lt (end_date fy) (start_date fy)
        \<and> valid_date (start_date fy) \<and> valid_date (end_date fy) \<and> valid_date as_of"
  have same: "months_elapsed_in_fy (start_date fy) (end_date fy) as_of = months_elapsed fy as_of"
    by (simp add: months_elapsed_in_fy_views)
  have before: "date_lt as_of (start_date fy) \<longrightarrow>
      months_elapsed fy as_of = 0
      \<and> months_elapsed_in_fy (start_date fy) (end_date fy) as_of = 0
      \<and> (valid_date (start_date fy) \<longrightarrow>
           quarter_end_for fy as_of =
             date_min (add_relativedelta (start_date fy) 3 (- 1)) (end_date fy)
           \<and> (\<not> date_lt (end_date fy) (start_date fy) \<longrightarrow>
                quarter_end_for fy as_of = quarter_end_for fy (start_date fy)))"
  proof (intro conjI impI)
    assume "date_lt as_of (start_date fy)"
    then show "months_elapsed fy as_of = 0"
      and "months_elapsed_in_fy (start_date fy) (end_date fy) as_of = 0"
      by (simp_all add: months_elapsed_in_fy_views months_elapsed_before)
  next
    assume b: "date_lt as_of (start_date fy)" and v: "valid_date (start_date fy)"
    then show q: "quarter_end_for fy as_of =
        date_min (add_relativedelta (start_date fy) 3 (- 1)) (end_date fy)"
      by (rule quarter_end_before_start)
    assume "\<not> date_lt (end_date fy) (start_date fy)"
    with v show "quarter_end_for fy as_of = quarter_end_for fy (start_date fy)"
      by (simp add: q quarter_end_at_start)
  qed
  have bracket: "1 \<le> months_elapsed fy as_of
      \<and> \<not> date_lt ?c (add_months (start_date fy) (months_elapsed fy as_of - 1))
      \<and> date_lt ?c (add_months (start_date fy) (months_elapsed fy as_of))" if a: ?in_year
  proof -
    have ge: "\<not> date_lt ?c (start_date fy)" using a by simp
    have mc: "1 \<le> month ?c" "month ?c \<le> 12" using a by (simp_all add: valid_date_def)
    have ms: "1 \<le> month (start_date fy)" "month (start_date fy) \<le> 12"
      using a by (simp_all add: valid_date_def)
    have m: "months_elapsed fy as_of = months_elapsed_in_fy (start_date fy) ?c ?c"
      unfolding months_elapsed_in_fy_views using a by (intro months_elapsed_clamped) simp_all
    show ?thesis
      unfolding m
      using months_elapsed_bracket [OF ge mc] months_elapsed_positive [OF ge ms mc] by blast
  qed
  have in_views: "?in_year \<longrightarrow>
        (let c = ?c; m = months_elapsed fy as_of
         in 1 \<le> m \<and> \<not> date_lt c (add_months (start_date fy) (m - 1))
            \<and> date_lt c (add_months (start_date fy) m))"
    unfolding Let_def using bracket by blast
  have in_utils: "?in_year \<longrightarrow>
        (let c = ?c; m = months_elapsed_in_fy (start_date fy) (end_date fy) as_of
         in 1 \<le> m \<and> \<not> date_lt c (add_months (start_date fy) (m - 1))
            \<and> date_lt c (add_months (start_date fy) m))
        \<and> quarter_end_for fy as_of =
            date_min (add_relativedelta
                        (add_relativedelta (start_date fy) ((quarters_elapsed fy as_of - 1) * 3) 0)
                        3 (- 1))
              (end_date fy)"
  proof (intro impI conjI)
    assume a: ?in_year
    show "let c = ?c; m = months_elapsed_in_fy (start_date fy) (end_date fy) as_of
         in 1 \<le> m \<and> \<not> date_lt c (add_months (start_date fy) (m - 1))
            \<and> date_lt c (add_months (start_date fy) m)"
      unfolding Let_def same using bracket [OF a] .
    have "1 \<le> months_elapsed_in_fy (start_date fy) (end_date fy) as_of"
      unfolding same using bracket [OF a] by blast
    then show "quarter_end_for fy as_of =
            date_min (add_relativedelta
                        (add_relativedelta (start_date fy) ((quarters_elapsed fy as_of - 1) * 3) 0)
                        3 (- 1))
              (end_date fy)"
      by (rule quarter_end_in_year)
  qed
  have quarters: "quarters_elapsed fy as_of = min 4 \<lceil>of_int (months_elapsed fy as_of) / (3::rat)\<rceil>"
    by (simp add: quarters_elapsed_def Let_def quarters_ceiling)
  have inst: "quarter_end_for fy_2024_25 (mk_date 2024 4 15) = mk_date 2024 6 30"
    by code_simp
  from before in_views same in_utils quarters inst show ?thesis by blast
qed

text \<open>
  20 January 2024 is before the year 2024/25 starts; 20 May 2024 is in its second
  month and first quarter, which ends on 30 June.
\<close>

theorem C8_months_and_quarters_witness:
  "months_elapsed fy_2024_25 (mk_date 2024 1 20) = 0
   \<and> quarter_end_for fy_2024_25 (mk_date 2024 1 20) = mk_date 2024 6 30
   \<and> quarter_end_for fy_2024_25 (mk_date 2024 1 20) = quarter_end_for fy_2024_25 (mk_date 2024 4 1)
   \<and> months_elapsed fy_2024_25 (mk_date 2024 5 20) = 2
   \<and> months_elapsed_in_fy (mk_date 2024 4 1) (mk_date 2025 3 31) (mk_date 2024 5 20) = 2
   \<and> \<not> date_lt (mk_date 2024 5 20) (mk_date 2024 5 1)
   \<and> date_lt (mk_date 2024 5 20) (mk_date 2024 6 1)
   \<and> quarters_elapsed fy_2024_25 (mk_date 2024 5 20) = 1
   \<and> quarter_end_for fy_2024_25 (mk_date 2024 5 20) = mk_date 2024 6 30"
proof -
  have s: "start_date fy_2024_25 = mk_date 2024 4 1" and e: "end_date fy_2024_25 = mk_date 2025 3 31"
    by (simp_all add: fy_2024_25_def)
  have before: "date_lt (mk_date 2024 1 20) (start_date fy_2024_25)" by code_simp
  have valid: "valid_date (start_date fy_2024_25)" "valid_date (end_date fy_2024_25)"
    "valid_date (mk_date 2024 5 20)" by code_simp+
  have order: "\<not> date_lt (end_date fy_2024_25) (start_date fy_2024_25)"
    "\<not> date_lt (mk_date 2024 5 20) (start_date fy_2024_25)" by code_simp+
  have q1: "date_min (add_relativedelta (mk_date 2024 4 1) 3 (- 1)) (mk_date 2025 3 31)
            = mk_date 2024 6 30" by code_simp
  have q1': "date_min (add_relativedelta (add_relativedelta (mk_date 2024 4 1) 0 0) 3 (- 1))
               (mk_date 2025 3 31)
            = mk_date 2024 6 30" by code_simp
  have m2: "months_elapsed fy_2024_25 (mk_date 2024 5 20) = 2" by code_simp
  have c: "\<not> date_lt (mk_date 2025 3 31) (mk_date 2024 5 20)" by code_simp
  have a1: "add_months (mk_date 2024 4 1) 1 = mk_date 2024 5 1"
    and a2: "add_months (mk_date 2024 4 1) 2 = mk_date 2024 6 1" by code_simp+
  have ce: "\<lceil>2 / (3::rat)\<rceil> = 1" by (simp add: ceiling_eq_iff)
  from C8_months_and_quarters [of "mk_date 2024 1 20" fy_2024_25] before valid(1) order(1)
  have "months_elapsed fy_2024_25 (mk_date 2024 1 20) = 0
      \<and> quarter_end_for fy_2024_25 (mk_date 2024 1 20) =
          date_min (add_relativedelta (start_date fy_2024_25) 3 (- 1)) (end_date fy_2024_25)
      \<and> quarter_end_for fy_2024_25 (mk_date 2024 1 20) =
          quarter_end_for fy_2024_25 (start_date fy_2024_25)"
    by blast
  moreover
  from C8_months_and_quarters [of "mk_date 2024 5 20" fy_2024_25] valid order
  have "(let c = (if date_lt (end_date fy_2024_25) (mk_date 2024 5 20) then end_date fy_2024_25
                  else mk_date 2024 5 20);
             m = months_elapsed fy_2024_25 (mk_date 2024 5 20)
         in 1 \<le> m \<and> \<not> date_lt c (add_months (start_date fy_2024_25) (m - 1))
            \<and> date_lt c (add_months (start_date fy_2024_25) m))
       \<and> months_elapsed_in_fy (start_date fy_2024_25) (end_date fy_2024_25) (mk_date 2024 5 20)
           = months_elapsed fy_2024_25 (mk_date 2024 5 20)
       \<and> quarter_end_for fy_2024_25 (mk_date 2024 5 20) =
            date_min (add_relativedelta
                        (add_relativedelta (start_date fy_2024_25)
                           ((quarters_elapsed fy_2024_25 (mk_date 2024 5 20) - 1) * 3) 0)
                        3 (- 1))
              (end_date fy_2024_25)
       \<and> quarters_elapsed fy_2024_25 (mk_date 2024 5 20) =
          min 4 \<lceil>of_int (months_elapsed fy_2024_25 (mk_date 2024 5 20)) / (3::rat)\<rceil>"
    by blast
  ultimately show ?thesis
    unfolding s e q1 m2 Let_def by (auto simp: c a1 a2 ce q1')
qed

section \<open>Helper facts for the year-to-date figures and the evidence rule\<close>

lemma date_min_commute: "date_key (date_min a b) = date_key (date_min b a)"
  by (auto simp: date_min_def date_lt_def)

lemma toordinal_key: "date_key a = date_key b \<Longrightarrow> toordinal a = toordinal b"
  by (simp add: date_key_def toordinal_def)

lemma elapsed_days_code:
  "days_between (date_min (end_date fy) as_of) (start_date fy) + 1 = elapsed_days_in_fy fy as_of"
  unfolding elapsed_days_in_fy_def days_between_def
  using toordinal_key [OF date_min_commute, of "end_date fy" as_of] by simp

lemma dec_div_mul_ok: "b \<noteq> 0 \<Longrightarrow> dec_div_mul a b c = Inr (round28 (round28 (a / b) * c))"
  by (simp add: dec_div_mul_def dec_div_def dec_mul_def)

lemma round28_zero: "round28 0 = 0"
  by (simp add: round28_def)

text \<open>
  The digit count is right, so the scaled number has a digit before the point and
  rounding never makes a number vanish.
\<close>

lemma int_digits_pos: "0 < int_digits n"
  by (subst int_digits.simps) simp

lemma int_digits_upper: "n < 10 ^ int_digits n"
proof (induction n rule: int_digits.induct)
  case (1 n)
  show ?case
  proof (cases "n < 10")
    case True
    then show ?thesis by (subst int_digits.simps) simp
  next
    case False
    have "n div 10 < 10 ^ int_digits (n div 10)" using 1 False by simp
    hence "n div 10 + 1 \<le> 10 ^ int_digits (n div 10)" by simp
    hence "10 * (n div 10) + 10 \<le> 10 * 10 ^ int_digits (n div 10)" by simp
    moreover have "n = 10 * (n div 10) + n mod 10" by simp
    moreover have "n mod 10 < 10" by simp
    ultimately have "n < 10 * 10 ^ int_digits (n div 10)" by linarith
    then show ?thesis using False by (subst int_digits.simps) simp
  qed
qed

lemma int_digits_lower: "1 \<le> n \<Longrightarrow> 10 ^ (int_digits n - 1) \<le> n"
proof (induction n rule: int_digits.induct)
  case (1 n)
  show ?case
  proof (cases "n < 10")
    case True
    then show ?thesis using 1(2) by (subst int_digits.simps) simp
  next
    case False
    hence "1 \<le> n div 10" by simp
    hence ih: "10 ^ (int_digits (n div 10) - 1) \<le> n div 10" using 1(1) False by simp
    have "10 * (n div 10) \<le> n" by simp
    hence "10 * 10 ^ (int_digits (n div 10) - 1) \<le> n" using ih by linarith
    moreover have "int_digits n - 1 = Suc (int_digits (n div 10) - 1)"
      using False int_digits_pos [of "n div 10"] by (subst int_digits.simps) simp
    ultimately show ?thesis by simp
  qed
qed

lemma pow10_pos: "0 < pow10 k"
  by (simp add: pow10_def)

lemma round_half_even_zero: "round_half_even y = 0 \<Longrightarrow> \<bar>y\<bar> < 1"
  unfolding round_half_even_def Let_def
  by (auto split: if_splits simp: floor_eq_iff) (linarith+)?

lemma scale_ge_one:
  assumes "0 < a"
  shows "1 \<le> a * pow10 (27 - adjusted a)"
proof (cases "1 \<le> a")
  case True
  define d where "d = int_digits \<lfloor>a\<rfloor>"
  have fl: "1 \<le> \<lfloor>a\<rfloor>" using True by simp
  have adj: "adjusted a = int d - 1" using True by (simp add: adjusted_def d_def)
  show ?thesis
  proof (cases "d \<le> 28")
    case True
    hence "pow10 (27 - adjusted a) = 10 ^ nat (28 - int d)" by (simp add: adj pow10_def)
    hence "1 \<le> pow10 (27 - adjusted a)" by simp
    thus ?thesis using \<open>1 \<le> a\<close> by (metis mult_mono' mult_1 zero_le_one)
  next
    case False
    hence p: "pow10 (27 - adjusted a) = 1 / 10 ^ (d - 28)"
      by (simp add: adj pow10_def nat_diff_distrib)
    have "(10::int) ^ (d - 28) \<le> 10 ^ (d - 1)" by (rule power_increasing) simp_all
    also have "\<dots> \<le> \<lfloor>a\<rfloor>" unfolding d_def by (rule int_digits_lower [OF fl])
    finally have "of_int ((10::int) ^ (d - 28)) \<le> a" by (simp add: le_floor_iff)
    hence "(10::rat) ^ (d - 28) \<le> a" by simp
    thus ?thesis by (simp add: p)
  qed
next
  case False
  define k where "k = int_digits (\<lceil>1 / a\<rceil> - 1)"
  have adj: "adjusted a = - int k" using False by (simp add: adjusted_def k_def)
  have p: "pow10 (27 - adjusted a) = 10 ^ (27 + k)"
    by (simp add: adj pow10_def nat_add_distrib)
  have "\<lceil>1 / a\<rceil> - 1 < 10 ^ k" unfolding k_def by (rule int_digits_upper)
  hence "\<lceil>1 / a\<rceil> \<le> 10 ^ k" by simp
  hence "1 / a \<le> of_int (10 ^ k)" by (simp only: ceiling_le_iff)
  hence "1 / a \<le> 10 ^ k" by simp
  hence "1 \<le> a * 10 ^ k" using assms by (simp add: field_simps)
  also have "\<dots> \<le> a * 10 ^ (27 + k)"
    using assms by (intro mult_left_mono power_increasing) simp_all
  finally show ?thesis by (simp only: p)
qed

lemma round28_eq_0_iff: "round28 x = 0 \<longleftrightarrow> x = 0"
proof (cases "x = 0")
  case True
  thus ?thesis by (simp add: round28_def)
next
  case False
  define s where "s = pow10 (27 - adjusted \<bar>x\<bar>)"
  have s: "0 < s" unfolding s_def by (rule pow10_pos)
  have "1 \<le> \<bar>x\<bar> * s" unfolding s_def by (rule scale_ge_one) (simp add: False)
  hence "1 \<le> \<bar>x * s\<bar>" using s by (simp add: abs_mult)
  hence "round_half_even (x * s) \<noteq> 0" using round_half_even_zero [of "x * s"] by auto
  hence "round28 x \<noteq> 0" using s False by (simp add: round28_def s_def [symmetric] Let_def)
  thus ?thesis using False by simp
qed

lemma count_red_amber_run:
  "count_red_amber rag c xs =
     (if list_all (\<lambda>u. is_red_amber (rag u)) xs then c + int (length xs)
      else int (length (takeWhile (\<lambda>u. is_red_amber (rag u)) (rev xs))))"
proof (induction xs arbitrary: c)
  case Nil
  then show ?case by simp
next
  case (Cons u rest)
  show ?case
  proof (cases "list_all (\<lambda>u. is_red_amber (rag u)) rest")
    case True
    then have "takeWhile (\<lambda>u. is_red_amber (rag u)) (rev rest @ [u])
               = rev rest @ takeWhile (\<lambda>u. is_red_amber (rag u)) [u]"
      by (intro takeWhile_append2) (simp add: list_all_iff)
    with True Cons show ?thesis by simp
  next
    case False
    then obtain x where "x \<in> set (rev rest)" "\<not> is_red_amber (rag x)"
      by (auto simp: list_all_iff)
    then have "takeWhile (\<lambda>u. is_red_amber (rag u)) (rev rest @ [u])
               = takeWhile (\<lambda>u. is_red_amber (rag u)) (rev rest)"
      by (rule takeWhile_append1)
    with False Cons show ?thesis by simp
  qed
qed

lemma count_red_amber_trailing:
  "count_red_amber rag 0 xs = int (length (takeWhile (\<lambda>u. is_red_amber (rag u)) (rev xs)))"
proof (cases "list_all (\<lambda>u. is_red_amber (rag u)) xs")
  case True
  then have tw: "takeWhile (\<lambda>u. is_red_amber (rag u)) (rev xs) = rev xs"
    by (simp add: takeWhile_eq_all_conv list_all_iff)
  show ?thesis unfolding count_red_amber_run tw using True by simp
next
  case False
  then show ?thesis by (simp add: count_red_amber_run)
qed

lemma set_consecutive_updates:
  "set (consecutive_updates n t db u) =
     {x \<in> set db. pu_target x = target_id t
        \<and> date_le (add_months (period_end u) (- n)) (period_end x)
        \<and> date_le (period_end x) (period_end u) \<and> pu_is_active x}"
  by (auto simp: consecutive_updates_def Let_def add_relativedelta_def date_add_days_def)

lemma sorted_consecutive_updates:
  "sorted (map (\<lambda>x. date_key (period_end x)) (consecutive_updates n t db u))"
  by (simp add: consecutive_updates_def Let_def)

section \<open>RAG classification\<close>

text \<open>
  Claim C6.  \<open>compute_rag_from_percent\<close> takes the green and amber thresholds 95 and
  80 when no target is given and the target's own thresholds otherwise, and answers
  GREEN for a percentage at or above green, else AMBER at or above amber, else RED.
  With the defaults 95 is GREEN, 80 is AMBER and 79.99 is RED.
\<close>

theorem C6_compute_rag_from_percent:
  "compute_rag_from_percent percent None =
     (if percent \<ge> 95 then ''GREEN'' else if percent \<ge> 80 then ''AMBER'' else ''RED'')
   \<and> compute_rag_from_percent percent (Some t) =
     (if percent \<ge> green_threshold t then ''GREEN''
      else if percent \<ge> amber_threshold t then ''AMBER'' else ''RED'')
   \<and> compute_rag_from_percent 95 None = ''GREEN''
   \<and> compute_rag_from_percent 80 None = ''AMBER''
   \<and> compute_rag_from_percent (7999 / 100) None = ''RED''"
  by (simp add: compute_rag_from_percent_def)

text \<open>
  Claim C1.  A target with no recorded progress is to be GREY, never RED, on every
  path.  The two methods of the model keep to this; the drill-down view does not.  For
  an active annual target of 120 with the thresholds 95 and 80 and no progress update,
  on 20 May 2024 in the year 2024/25, the view sums a year-to-date actual of 0, forms
  the percentage 0 and classifies the target RED, and with it the plan item, while
  \<open>calculate_rag_status\<close> and \<open>get_rag_status\<close> answer GREY for the same target.
\<close>

theorem C1_drilldown_no_data_is_red:
  "filter pu_is_active (progress_updates (example_target ''ANNUAL'') []) = []
   \<and> sum_actuals_ytd (example_target ''ANNUAL'') fy_2024_25 (mk_date 2024 5 20) [] = 0
   \<and> drilldown_target_rag (example_target ''ANNUAL'') fy_2024_25 (mk_date 2024 5 20) [] = Inr ''RED''
   \<and> drilldown_item_rag 1 [example_target ''ANNUAL''] fy_2024_25 (mk_date 2024 5 20) [] = Inr ''RED''
   \<and> calculate_rag_status 100 (example_target ''ANNUAL'') [] None = ''GREY''
   \<and> get_rag_status (example_target ''ANNUAL'') [] = ''GREY''"
  by code_simp

text \<open>
  The model's side of it, for every target: with no active progress update
  \<open>Target.calculate_rag_status\<close> (called without a value) and
  \<open>Target.get_rag_status\<close> answer GREY, and \<open>calculate_rag_status\<close> answers GREY
  whenever the year-to-date target is zero.
\<close>

theorem model_no_data_is_grey:
  "(filter pu_is_active (progress_updates t db) = [] \<longrightarrow>
      calculate_rag_status ytd t db None = ''GREY'' \<and> get_rag_status t db = ''GREY'')
   \<and> calculate_rag_status 0 t db a = ''GREY''"
proof -
  have 1: "filter pu_is_active (progress_updates t db) = [] \<longrightarrow>
      calculate_rag_status ytd t db None = ''GREY'' \<and> get_rag_status t db = ''GREY''"
    by (simp add: calculate_rag_status_def get_rag_status_def get_latest_progress_def
        order_by_desc_def first_row_def)
  have 2: "calculate_rag_status 0 t db a = ''GREY''"
    by (simp add: calculate_rag_status_def split: option.splits)
  from 1 2 show ?thesis by blast
qed

text \<open>A target without any update is GREY for both methods of the model.\<close>

theorem model_no_data_is_grey_witness:
  "filter pu_is_active (progress_updates (example_target ''ANNUAL'') []) = []
   \<and> calculate_rag_status 100 (example_target ''ANNUAL'') [] None = ''GREY''
   \<and> get_rag_status (example_target ''ANNUAL'') [] = ''GREY''"
proof -
  have e: "filter pu_is_active (progress_updates (example_target ''ANNUAL'') []) = []"
    by (simp add: progress_updates_def)
  with model_no_data_is_grey [of "example_target ''ANNUAL''" "[]" 100] show ?thesis by blast
qed

text \<open>
  The view's side of it, for every target whose thresholds are positive: when no
  active progress update of the target has its period end in the part of the year up
  to the as-of date, the drill-down view classifies the target RED.
\<close>

theorem drilldown_no_data_is_red:
  assumes none: "filter (\<lambda>u. date_le (start_date fy) (period_end u)
                              \<and> date_le (period_end u) (date_min (end_date fy) as_of)
                              \<and> pu_is_active u)
                   (progress_updates t db) = []"
    and pos: "0 < green_threshold t" "0 < amber_threshold t"
  shows "drilldown_target_rag t fy as_of db = Inr ''RED''"
proof -
  have act: "sum_actuals_ytd t fy as_of db = 0"
    using none by (simp add: sum_actuals_ytd_def fy_bounds_def Let_def)
  have "\<not> isl (ytd_target_value t fy as_of)"
    by (simp add: ytd_target_value_def Let_def fy_bounds_def dec_div_def dec_div_mul_ok)
  then obtain tgt where tgt: "ytd_target_value t fy as_of = Inr tgt"
    by (cases "ytd_target_value t fy as_of") simp_all
  have pct: "compute_percent 0 (Some tgt) = Inr 0"
    by (simp add: compute_percent_def dec_div_mul_ok round28_zero)
  show ?thesis
    using pos by (simp add: drilldown_target_rag_def tgt act pct compute_rag_from_percent_def)
qed

theorem drilldown_no_data_is_red_witness:
  "drilldown_target_rag (example_target ''ANNUAL'') fy_2024_25 (mk_date 2024 5 20) [] = Inr ''RED''"
proof -
  let ?t = "example_target ''ANNUAL''"
  have none: "filter (\<lambda>u. date_le (start_date fy_2024_25) (period_end u)
                              \<and> date_le (period_end u) (date_min (end_date fy_2024_25) (mk_date 2024 5 20))
                              \<and> pu_is_active u)
                   (progress_updates ?t []) = []"
    by (simp add: progress_updates_def)
  have pos: "0 < green_threshold ?t" "0 < amber_threshold ?t"
    by (simp_all add: example_target_def)
  from drilldown_no_data_is_red [OF none pos] show ?thesis .
qed

section \<open>Year-to-date target\<close>

text \<open>
  Claim C7.  \<open>ytd_target_value\<close> returns, for a MONTHLY target, a twelfth of the
  value times the months elapsed; for a QUARTERLY target a quarter of the value times
  the quarters elapsed; for an ANNUAL target the value times the elapsed days over the
  days of the year, the elapsed days being those from the start to the earlier of the
  as-of date and the year's end, both counted (and 0 for a year of no days); and for
  MILESTONE or any other periodicity the whole value.  The quotients and products are
  those of the decimal arithmetic, each rounded to 28 significant digits.
\<close>

theorem C7_ytd_target_value:
  "(periodicity t = ''MONTHLY'' \<longrightarrow>
      ytd_target_value t fy as_of =
        Inr (round28 (round28 (target_value t / 12) * of_int (months_elapsed fy as_of))))
   \<and> (periodicity t = ''QUARTERLY'' \<longrightarrow>
      ytd_target_value t fy as_of =
        Inr (round28 (round28 (target_value t / 4) * of_int (quarters_elapsed fy as_of))))
   \<and> (periodicity t = ''ANNUAL'' \<longrightarrow>
      ytd_target_value t fy as_of =
        Inr (round28 (round28 (target_value t * of_int (elapsed_days_in_fy fy as_of))
                        / of_int (total_days_in_fy fy)))
      \<and> (total_days_in_fy fy = 0 \<longrightarrow> ytd_target_value t fy as_of = Inr 0))
   \<and> (periodicity t \<noteq> ''MONTHLY'' \<and> periodicity t \<noteq> ''QUARTERLY'' \<and> periodicity t \<noteq> ''ANNUAL'' \<longrightarrow>
      ytd_target_value t fy as_of = Inr (target_value t))"
proof (intro conjI impI)
  assume "periodicity t = ''MONTHLY''"
  then show "ytd_target_value t fy as_of =
      Inr (round28 (round28 (target_value t / 12) * of_int (months_elapsed fy as_of)))"
    by (simp add: ytd_target_value_def Let_def dec_div_mul_ok)
next
  assume "periodicity t = ''QUARTERLY''"
  then show "ytd_target_value t fy as_of =
      Inr (round28 (round28 (target_value t / 4) * of_int (quarters_elapsed fy as_of)))"
    by (simp add: ytd_target_value_def Let_def dec_div_mul_ok)
next
  assume a: "periodicity t = ''ANNUAL''"
  have td: "days_between (end_date fy) (start_date fy) + 1 = total_days_in_fy fy"
    by (simp add: total_days_in_fy_def)
  show "ytd_target_value t fy as_of =
        Inr (round28 (round28 (target_value t * of_int (elapsed_days_in_fy fy as_of))
                        / of_int (total_days_in_fy fy)))"
    using a
    by (simp add: ytd_target_value_def Let_def fy_bounds_def dec_div_def dec_mul_def
        elapsed_days_code td round28_zero)
  assume "total_days_in_fy fy = 0"
  then show "ytd_target_value t fy as_of = Inr 0"
    using a by (simp add: ytd_target_value_def Let_def fy_bounds_def td)
next
  assume "periodicity t \<noteq> ''MONTHLY'' \<and> periodicity t \<noteq> ''QUARTERLY'' \<and> periodicity t \<noteq> ''ANNUAL''"
  then show "ytd_target_value t fy as_of = Inr (target_value t)"
    by (simp add: ytd_target_value_def Let_def)
qed

text \<open>
  A target of 120 in the year 2024/25: 20 after two months, 60 after two quarters,
  9.863013698630136986301369863 (120 * 30 / 365 to 28 digits) after the thirty days
  of April, and 120 for a milestone.  A monthly target of 3.20 after three months is
  0.8000000000000000000000000001, the rounded twelfth 0.2666666666666666666666666667
  taken three times.
\<close>

theorem C7_ytd_target_value_witness:
  "ytd_target_value (example_target ''MONTHLY'') fy_2024_25 (mk_date 2024 5 20) = Inr 20
   \<and> ytd_target_value (example_target ''QUARTERLY'') fy_2024_25 (mk_date 2024 8 20) = Inr 60
   \<and> ytd_target_value (example_target ''ANNUAL'') fy_2024_25 (mk_date 2024 4 30)
       = Inr (9863013698630136986301369863 / 10 ^ 27)
   \<and> ytd_target_value (example_target ''MILESTONE'') fy_2024_25 (mk_date 2024 4 30) = Inr 120
   \<and> ytd_target_value ((example_target ''MONTHLY'')\<lparr>target_value := 320 / 100\<rparr>)
         fy_2024_25 (mk_date 2024 6 15)
       = Inr (8000000000000000000000000001 / 10 ^ 28)"
proof -
  have m: "months_elapsed fy_2024_25 (mk_date 2024 5 20) = 2" by code_simp
  have m3: "months_elapsed fy_2024_25 (mk_date 2024 6 15) = 3" by code_simp
  have q: "quarters_elapsed fy_2024_25 (mk_date 2024 8 20) = 2" by code_simp
  have e: "elapsed_days_in_fy fy_2024_25 (mk_date 2024 4 30) = 30" by code_simp
  have d: "total_days_in_fy fy_2024_25 = 365" by code_simp
  have r1: "round28 (round28 (120 / 12) * 2) = 20" by code_simp
  have r2: "round28 (round28 (120 / 4) * 2) = 60" by code_simp
  have r3: "round28 (round28 (120 * 30) / 365) = 9863013698630136986301369863 / 10 ^ 27"
    by code_simp
  have r4: "round28 (round28 (320 / 100 / 12) * 3) = 8000000000000000000000000001 / 10 ^ 28"
    by code_simp
  have "ytd_target_value (example_target ''MONTHLY'') fy_2024_25 (mk_date 2024 5 20) = Inr 20"
    using C7_ytd_target_value [of "example_target ''MONTHLY''" fy_2024_25 "mk_date 2024 5 20"] r1
    by (simp add: example_target_def m)
  moreover
  have "ytd_target_value (example_target ''QUARTERLY'') fy_2024_25 (mk_date 2024 8 20) = Inr 60"
    using C7_ytd_target_value [of "example_target ''QUARTERLY''" fy_2024_25 "mk_date 2024 8 20"] r2
    by (simp add: example_target_def q)
  moreover
  have "ytd_target_value (example_target ''ANNUAL'') fy_2024_25 (mk_date 2024 4 30)
          = Inr (9863013698630136986301369863 / 10 ^ 27)"
    using C7_ytd_target_value [of "example_target ''ANNUAL''" fy_2024_25 "mk_date 2024 4 30"] r3
    by (simp add: example_target_def e d)
  moreover
  have "ytd_target_value (example_target ''MILESTONE'') fy_2024_25 (mk_date 2024 4 30) = Inr 120"
    using C7_ytd_target_value [of "example_target ''MILESTONE''" fy_2024_25 "mk_date 2024 4 30"]
    by (simp add: example_target_def)
  moreover
  have "ytd_target_value ((example_target ''MONTHLY'')\<lparr>target_value := 320 / 100\<rparr>)
          fy_2024_25 (mk_date 2024 6 15) = Inr (8000000000000000000000000001 / 10 ^ 28)"
    using C7_ytd_target_value [of "(example_target ''MONTHLY'')\<lparr>target_value := 320 / 100\<rparr>"
        fy_2024_25 "mk_date 2024 6 15"] r4
    by (simp add: example_target_def m3)
  ultimately show ?thesis by blast
qed

section \<open>Ratios with a zero denominator\<close>



section \<open>Evidence escalation\<close>

text \<open>
  Claim C2.  For an update whose own RAG status is neither RED nor AMBER no evidence
  is required.  For one that is RED or AMBER, evidence is required exactly when the
  counter kept while walking the window reaches the threshold \<open>N\<close> (2 unless
  configured): the window is the active updates of the same target whose period end
  lies between the update's period end less \<open>N\<close> months and that period end, in the
  order of their period ends; the counter goes up by one at each RED or AMBER update
  and back to zero at any other, so that at the end of the walk it is the length of
  the run of RED or AMBER updates the window ends with.  Two AMBER months in a row
  require evidence on the second; a GREEN month between two AMBER ones does not,
  while the same two AMBER months without it do.
\<close>

theorem C2_is_evidence_required:
  "(\<not> is_red_amber (rag_status ytd t db u) \<longrightarrow> \<not> is_evidence_required cfg ytd t db u)
   \<and> (is_red_amber (rag_status ytd t db u) \<longrightarrow>
        is_evidence_required cfg ytd t db u =
          ((case cfg of None \<Rightarrow> 2 | Some n \<Rightarrow> n)
             \<le> count_red_amber (rag_status ytd t db) 0
                  (consecutive_updates (case cfg of None \<Rightarrow> 2 | Some n \<Rightarrow> n) t db u)))
   \<and> count_red_amber (rag_status ytd t db) 0 (consecutive_updates n t db u) =
        int (length (takeWhile (\<lambda>x. is_red_amber (rag_status ytd t db x))
                       (rev (consecutive_updates n t db u))))
   \<and> set (consecutive_updates n t db u) =
        {x \<in> set db. pu_target x = target_id t
           \<and> date_le (add_months (period_end u) (- n)) (period_end x)
           \<and> date_le (period_end x) (period_end u) \<and> pu_is_active x}
   \<and> sorted (map (\<lambda>x. date_key (period_end x)) (consecutive_updates n t db u))
   \<and> is_evidence_required None 100 (example_target ''MONTHLY'') [amber_april, amber_may] amber_may
   \<and> \<not> is_evidence_required None 100 (example_target ''MONTHLY'')
          [amber_april, green_may, amber_june] amber_june
   \<and> is_evidence_required None 100 (example_target ''MONTHLY'') [amber_april, amber_june] amber_june"
proof (intro conjI impI)
  assume "\<not> is_red_amber (rag_status ytd t db u)"
  then show "\<not> is_evidence_required cfg ytd t db u"
    by (simp add: is_evidence_required_def)
next
  assume "is_red_amber (rag_status ytd t db u)"
  then show "is_evidence_required cfg ytd t db u =
          ((case cfg of None \<Rightarrow> 2 | Some n \<Rightarrow> n)
             \<le> count_red_amber (rag_status ytd t db) 0
                  (consecutive_updates (case cfg of None \<Rightarrow> 2 | Some n \<Rightarrow> n) t db u))"
    by (simp add: is_evidence_required_def Let_def)
next
  show "count_red_amber (rag_status ytd t db) 0 (consecutive_updates n t db u) =
        int (length (takeWhile (\<lambda>x. is_red_amber (rag_status ytd t db x))
                       (rev (consecutive_updates n t db u))))"
    by (rule count_red_amber_trailing)
next
  show "set (consecutive_updates n t db u) =
        {x \<in> set db. pu_target x = target_id t
           \<and> date_le (add_months (period_end u) (- n)) (period_end x)
           \<and> date_le (period_end x) (period_end u) \<and> pu_is_active x}"
    by (rule set_consecutive_updates)
next
  show "sorted (map (\<lambda>x. date_key (period_end x)) (consecutive_updates n t db u))"
    by (rule sorted_consecutive_updates)
next
  show "is_evidence_required None 100 (example_target ''MONTHLY'') [amber_april, amber_may] amber_may"
    by code_simp
next
  show "\<not> is_evidence_required None 100 (example_target ''MONTHLY'')
          [amber_april, green_may, amber_june] amber_june"
    by code_simp
next
  show "is_evidence_required None 100 (example_target ''MONTHLY'') [amber_april, amber_june] amber_june"
    by code_simp
qed

text \<open>
  The second of two AMBER months requires evidence; a GREEN update never does.
\<close>

theorem C2_is_evidence_required_witness:
  "is_red_amber (rag_status 100 (example_target ''MONTHLY'') [amber_april, amber_may] amber_may)
   \<and> is_evidence_required None 100 (example_target ''MONTHLY'') [amber_april, amber_may] amber_may
   \<and> \<not> is_red_amber (rag_status 100 (example_target ''MONTHLY'')
            [amber_april, green_may, amber_june] green_may)
   \<and> \<not> is_evidence_required None 100 (example_target ''MONTHLY'')
          [amber_april, green_may, amber_june] green_may"
proof -
  let ?t = "example_target ''MONTHLY''"
  have ra: "is_red_amber (rag_status 100 ?t [amber_april, amber_may] amber_may)" by code_simp
  have cnt: "(2::int) \<le> count_red_amber (rag_status 100 ?t [amber_april, amber_may]) 0
               (consecutive_updates 2 ?t [amber_april, amber_may] amber_may)" by code_simp
  have g: "\<not> is_red_amber (rag_status 100 ?t [amber_april, green_may, amber_june] green_may)"
    by code_simp
  have "is_evidence_required None 100 ?t [amber_april, amber_may] amber_may"
    using C2_is_evidence_required [of 100 ?t "[amber_april, amber_may]" amber_may None] ra cnt
    by simp
  moreover have "\<not> is_evidence_required None 100 ?t [amber_april, green_may, amber_june] green_may"
    using C2_is_evidence_required [of 100 ?t "[amber_april, green_may, amber_june]" green_may None] g
    by blast
  ultimately show ?thesis using ra g by blast
qed

section \<open>Facts about the draft endpoint\<close>

lemma stamp_fields [simp]:
  "pu_id (stamp n r) = pu_id r" "pu_key (stamp n r) = pu_key r"
  "is_submitted (stamp n r) = is_submitted r" "pu_is_active (stamp n r) = pu_is_active r"
  "actual_value (stamp n r) = actual_value r" "pu_target (stamp n r) = pu_target r"
  "period_start (stamp n r) = period_start r" "period_end (stamp n r) = period_end r"
  by (simp_all add: stamp_def pu_key_def)

lemma set_validated_fields [simp]:
  "pu_id (set_validated v r) = pu_id r"
  "pu_key (set_validated v r) = (v_target v, v_period_start v, v_period_end v)"
  "is_submitted (set_validated v r) = or_keep (v_is_submitted v) (is_submitted r)"
  "pu_is_active (set_validated v r) = pu_is_active r"
  "actual_value (set_validated v r) = v_actual_value v"
  "pu_target (set_validated v r) = v_target v"
  "period_start (set_validated v r) = v_period_start v"
  "period_end (set_validated v r) = v_period_end v"
  by (simp_all add: set_validated_def pu_key_def)

lemma new_progress_update_fields [simp]:
  "pu_id (new_progress_update i) = i" "pu_is_active (new_progress_update i)"
  "\<not> is_submitted (new_progress_update i)"
  by (simp_all add: new_progress_update_def)

lemma pu_key_updated_by [simp]: "pu_key (r\<lparr>updated_by := u\<rparr>) = pu_key r"
  "pu_key (r\<lparr>created_by := c\<rparr>) = pu_key r"
  by (simp_all add: pu_key_def)

lemma get_target_id: "get_target env (Some i) = Some t \<Longrightarrow> target_id t = i"
  by (auto simp: get_target_def dest: find_Some_iff [THEN iffD1])

lemma serializer_fields:
  assumes "progress_update_serializer env db p ev = Some v"
  shows "p_target p = Some (v_target v)"
    and "Option.bind (p_period_start p) (env_field_date env) = Some (v_period_start v)"
    and "Option.bind (p_period_end p) (env_field_date env) = Some (v_period_end v)"
    and "p_actual_value p = Some (v_actual_value v)"
    and "v_is_submitted v = p_is_submitted p"
    and "env_other_validators env p db"
    and "unique_together_validator db (v_target v, v_period_start v, v_period_end v)"
  using assms
  by (auto simp: progress_update_serializer_def bind_eq_Some_conv
      split: option.splits if_splits prod.splits dest: get_target_id)

text \<open>The three ways a request to the draft endpoint can end.\<close>

lemma save_draft_outcome:
  assumes "save_draft env db payload = (resp, db')"
  obtains (refused) "db' = db" "\<And>i. resp \<noteq> HTTP_200_OK i"
  | (updated) t v existing
    where "get_target env (case p_target payload of Some i \<Rightarrow> Some i
                                                  | None \<Rightarrow> p_target_id payload) = Some t"
      and "progress_update_serializer env db (payload\<lparr>p_is_submitted := Some False\<rparr>)
             (map_option normalize_evidence (p_evidence_urls payload)) = Some v"
      and "find (\<lambda>r. pu_target r = target_id t \<and> period_start r = v_period_start v
                     \<and> period_end r = v_period_end v
                     \<and> \<not> is_submitted r \<and> pu_is_active r) db = Some existing"
      and "db' = map (\<lambda>r. if pu_id r = pu_id existing
                           then stamp (env_now env)
                                  ((set_validated v existing)\<lparr>updated_by := Some (env_user env)\<rparr>)
                           else r) db"
      and "resp = HTTP_200_OK (pu_id existing)"
  | (created) t v
    where "get_target env (case p_target payload of Some i \<Rightarrow> Some i
                                                  | None \<Rightarrow> p_target_id payload) = Some t"
      and "progress_update_serializer env db (payload\<lparr>p_is_submitted := Some False\<rparr>)
             (map_option normalize_evidence (p_evidence_urls payload)) = Some v"
      and "find (\<lambda>r. pu_target r = target_id t \<and> period_start r = v_period_start v
                     \<and> period_end r = v_period_end v
                     \<and> \<not> is_submitted r \<and> pu_is_active r) db = None"
      and "\<not> list_ex (\<lambda>r. pu_id r = env_fresh_id env
                           \<or> pu_key r = (v_target v, v_period_start v, v_period_end v)) db"
      and "db' = db @ [stamp (env_now env)
                        ((set_validated v (new_progress_update (env_fresh_id env)))
                           \<lparr>created_by := Some (env_user env),
                            updated_by := Some (env_user env)\<rparr>)]"
      and "resp = HTTP_200_OK (env_fresh_id env)"
proof (cases "get_target env (case p_target payload of Some i \<Rightarrow> Some i
                                                      | None \<Rightarrow> p_target_id payload)")
  case None
  with assms have "db' = db" "\<And>i. resp \<noteq> HTTP_200_OK i"
    by (auto simp: save_draft_def)
  then show ?thesis by (rule refused)
next
  case (Some t)
  note t = Some
  show ?thesis
  proof (cases "progress_update_serializer env db (payload\<lparr>p_is_submitted := Some False\<rparr>)
                  (map_option normalize_evidence (p_evidence_urls payload))")
    case None
    with assms t have "db' = db" "\<And>i. resp \<noteq> HTTP_200_OK i"
      by (auto simp: save_draft_def Let_def split: if_splits)
    then show ?thesis by (rule refused)
  next
    case (Some v)
    note v = Some
    show ?thesis
    proof (cases "find (\<lambda>r. pu_target r = target_id t \<and> period_start r = v_period_start v
                     \<and> period_end r = v_period_end v
                     \<and> \<not> is_submitted r \<and> pu_is_active r) db")
      case None
      note f = None
      show ?thesis
      proof (cases "resp = HTTP_200_OK (env_fresh_id env) \<and>
          \<not> list_ex (\<lambda>r. pu_id r = env_fresh_id env
                           \<or> pu_key r = (v_target v, v_period_start v, v_period_end v)) db")
        case True
        with assms t v f have dbeq: "db' = db @ [stamp (env_now env)
                        ((set_validated v (new_progress_update (env_fresh_id env)))
                           \<lparr>created_by := Some (env_user env),
                            updated_by := Some (env_user env)\<rparr>)]"
          by (auto simp: save_draft_def Let_def save_new_def split: if_splits)
        from True show ?thesis by (intro created [OF t v f _ dbeq]) simp_all
      next
        case False
        with assms t v f have "db' = db" "\<And>i. resp \<noteq> HTTP_200_OK i"
          by (auto simp: save_draft_def Let_def save_new_def split: if_splits)
        then show ?thesis by (rule refused)
      qed
    next
      case (Some existing)
      note f = Some
      show ?thesis
      proof (cases "resp = HTTP_200_OK (pu_id existing)")
        case True
        with assms t v f have dbeq: "db' = map (\<lambda>r. if pu_id r = pu_id existing
                           then stamp (env_now env)
                                  ((set_validated v existing)\<lparr>updated_by := Some (env_user env)\<rparr>)
                           else r) db"
          by (auto simp: save_draft_def Let_def save_existing_def split: if_splits)
        show ?thesis by (rule updated [OF t v f dbeq True])
      next
        case False
        with assms t v f have "db' = db" "\<And>i. resp \<noteq> HTTP_200_OK i"
          by (auto simp: save_draft_def Let_def save_existing_def split: if_splits)
        then show ?thesis by (rule refused)
      qed
    qed
  qed
qed

lemma same_id_same_row:
  "distinct (map pu_id db) \<Longrightarrow> r \<in> set db \<Longrightarrow> e \<in> set db \<Longrightarrow> pu_id r = pu_id e \<Longrightarrow> r = e"
  by (auto simp: distinct_map dest: inj_onD)

lemma draft_row_not_submitted:
  assumes "progress_update_serializer env db (payload\<lparr>p_is_submitted := Some False\<rparr>) ev = Some v"
  shows "\<not> is_submitted (stamp n ((set_validated v r)\<lparr>updated_by := u\<rparr>))"
    and "\<not> is_submitted (stamp n ((set_validated v r)\<lparr>created_by := c, updated_by := u\<rparr>))"
  using serializer_fields(5) [OF assms] by (simp_all add: or_keep_def)

lemma serializer_target:
  assumes "get_target env (case p_target payload of Some i \<Rightarrow> Some i
                                                   | None \<Rightarrow> p_target_id payload) = Some t"
    and "progress_update_serializer env db (payload\<lparr>p_is_submitted := Some False\<rparr>) ev = Some v"
  shows "v_target v = target_id t"
  using assms serializer_fields(1) [OF assms(2)] by (auto dest: get_target_id)

lemma save_draft_row:
  assumes ids: "distinct (map pu_id db)"
    and post: "save_draft env db payload = (HTTP_200_OK i, db')"
  obtains r where "r \<in> set db'" "pu_id r = i" "\<not> is_submitted r" "pu_is_active r"
    and "p_target payload = Some (pu_target r)"
    and "Option.bind (p_period_start payload) (env_field_date env) = Some (period_start r)"
    and "Option.bind (p_period_end payload) (env_field_date env) = Some (period_end r)"
    and "p_actual_value payload = Some (actual_value r)"
  using post
proof (cases rule: save_draft_outcome)
  case refused
  from refused(2) [of i] show ?thesis by simp
next
  case (updated t v existing)
  let ?new = "stamp (env_now env) ((set_validated v existing)\<lparr>updated_by := Some (env_user env)\<rparr>)"
  have ex: "existing \<in> set db" "pu_is_active existing"
    using updated(3) by (auto simp: find_Some_iff)
  have "?new \<in> set db'"
    unfolding updated(4) using ex(1) by (auto simp: image_iff intro!: bexI [of _ existing])
  moreover have "pu_id ?new = i" using updated(5) by simp
  moreover have "\<not> is_submitted ?new" by (rule draft_row_not_submitted(1) [OF updated(2)])
  moreover have "pu_is_active ?new" using ex(2) by simp
  ultimately show ?thesis
    using serializer_fields [OF updated(2)] by (intro that [of ?new]) simp_all
next
  case (created t v)
  let ?new = "stamp (env_now env)
                ((set_validated v (new_progress_update (env_fresh_id env)))
                   \<lparr>created_by := Some (env_user env), updated_by := Some (env_user env)\<rparr>)"
  have "?new \<in> set db'" unfolding created(5) by simp
  moreover have "pu_id ?new = i" using created(6) by simp
  moreover have "\<not> is_submitted ?new" by (rule draft_row_not_submitted(2) [OF created(2)])
  moreover have "pu_is_active ?new" by simp
  ultimately show ?thesis
    using serializer_fields [OF created(2)] by (intro that [of ?new]) simp_all
qed

lemma save_draft_db_ok:
  assumes ok: "db_ok db" and post: "save_draft env db payload = (resp, db')"
  shows "db_ok db'"
  using post
proof (cases rule: save_draft_outcome)
  case refused
  with ok show ?thesis by simp
next
  case (updated t v existing)
  let ?new = "stamp (env_now env) ((set_validated v existing)\<lparr>updated_by := Some (env_user env)\<rparr>)"
  have ex: "existing \<in> set db" "pu_target existing = target_id t"
    "period_start existing = v_period_start v" "period_end existing = v_period_end v"
    using updated(3) by (auto simp: find_Some_iff)
  have key: "pu_key ?new = pu_key existing"
    using ex serializer_target [OF updated(1,2)] by (simp add: pu_key_def)
  have same: "\<And>r. r \<in> set db \<Longrightarrow> pu_id r = pu_id existing \<Longrightarrow> r = existing"
    using same_id_same_row [OF _ _ ex(1)] ok by (auto simp: db_ok_def)
  have "map pu_id db' = map pu_id db" unfolding updated(4) by (simp add: comp_def)
  moreover have "map pu_key db' = map pu_key db"
    unfolding updated(4) using same key by (auto simp: comp_def)
  ultimately show ?thesis using ok by (simp add: db_ok_def)
next
  case (created t v)
  then show ?thesis using ok by (auto simp: db_ok_def list_ex_iff)
qed

text \<open>
  A payload whose target, period start and period end are those of a row of the table
  is refused by the uniqueness validator of the serializer, which runs before the
  endpoint looks for the draft to update: the table stays as it is and the answer is
  not 200.
\<close>

lemma draft_key_taken_is_refused:
  assumes post: "save_draft env db payload = (resp, db')"
    and row: "r \<in> set db"
    and key: "p_target payload = Some (pu_target r)"
      "Option.bind (p_period_start payload) (env_field_date env) = Some (period_start r)"
      "Option.bind (p_period_end payload) (env_field_date env) = Some (period_end r)"
  shows "db' = db \<and> (\<forall>i. resp \<noteq> HTTP_200_OK i)"
proof -
  have no: "progress_update_serializer env db (payload\<lparr>p_is_submitted := Some False\<rparr>) ev \<noteq> Some v"
    for ev v
  proof
    assume v: "progress_update_serializer env db (payload\<lparr>p_is_submitted := Some False\<rparr>) ev = Some v"
    from serializer_fields(1-3) [OF v] key
    have "pu_key r = (v_target v, v_period_start v, v_period_end v)"
      by (simp add: pu_key_def)
    with row have "list_ex (\<lambda>x. pu_key x = (v_target v, v_period_start v, v_period_end v)) db"
      by (auto simp: list_ex_iff)
    with serializer_fields(7) [OF v] show False
      by (simp add: unique_together_validator_def)
  qed
  from post show ?thesis
  proof (cases rule: save_draft_outcome)
    case refused
    then show ?thesis by simp
  next
    case (updated t v existing)
    from updated(2) no [of _ v] show ?thesis by simp
  next
    case (created t v)
    from created(2) no [of _ v] show ?thesis by simp
  qed
qed

section \<open>Draft autosave\<close>

text \<open>
  Claim C3.  Posting a draft twice for the same target, period start and period end
  with different actual values is to leave exactly one row, holding the value posted
  last.  The endpoint leaves one row, but with the value posted first: the second
  request is refused by the serializer before the existing draft is looked up.  In the
  repository's own test, a draft of 5 with narrative A and then a draft of 7 with
  narrative B for 1 April to 30 June 2024, the first request is answered 200 and
  creates row 1; the second is answered 400 and the row still holds 5 and A.
\<close>

theorem C3_second_draft_is_refused:
  "fst (save_draft (example_env lock_off) [] (example_payload ''2024-06-30'' 5 ''A'' False))
     = HTTP_200_OK 1
   \<and> map (\<lambda>r. (pu_id r, pu_key r, actual_value r, narrative r, is_submitted r, pu_is_active r))
       (snd (save_draft (example_env lock_off) [] (example_payload ''2024-06-30'' 5 ''A'' False)))
     = [(1, (1, mk_date 2024 4 1, mk_date 2024 6 30), 5, ''A'', False, True)]
   \<and> fst (save_draft (example_env lock_off)
            (snd (save_draft (example_env lock_off) [] (example_payload ''2024-06-30'' 5 ''A'' False)))
            (example_payload ''2024-06-30'' 7 ''B'' False))
     = HTTP_400_BAD_REQUEST
   \<and> map (\<lambda>r. (pu_id r, pu_key r, actual_value r, narrative r, is_submitted r, pu_is_active r))
       (snd (save_draft (example_env lock_off)
               (snd (save_draft (example_env lock_off) []
                       (example_payload ''2024-06-30'' 5 ''A'' False)))
               (example_payload ''2024-06-30'' 7 ''B'' False)))
     = [(1, (1, mk_date 2024 4 1, mk_date 2024 6 30), 5, ''A'', False, True)]"
  by code_simp

text \<open>
  This is so for every pair of requests: once a draft has been saved, a second request
  for the same target, period start and period end is never answered 200 and never
  changes the table, whatever value it carries.
\<close>

theorem second_draft_never_saved:
  assumes ids: "distinct (map pu_id db)"
    and first: "save_draft env1 db p1 = (HTTP_200_OK i1, db1)"
    and second: "save_draft env2 db1 p2 = (resp, db2)"
    and same_parser: "env_field_date env2 = env_field_date env1"
    and same_key: "p_target p2 = p_target p1" "p_period_start p2 = p_period_start p1"
      "p_period_end p2 = p_period_end p1"
  shows "db2 = db1 \<and> (\<forall>i. resp \<noteq> HTTP_200_OK i)"
proof -
  from ids first obtain r1 where r1: "r1 \<in> set db1" "p_target p1 = Some (pu_target r1)"
      "Option.bind (p_period_start p1) (env_field_date env1) = Some (period_start r1)"
      "Option.bind (p_period_end p1) (env_field_date env1) = Some (period_end r1)"
    by (rule save_draft_row)
  show ?thesis
    using second r1(1)
  proof (rule draft_key_taken_is_refused)
    show "p_target p2 = Some (pu_target r1)" using r1(2) same_key(1) by simp
    show "Option.bind (p_period_start p2) (env_field_date env2) = Some (period_start r1)"
      using r1(3) same_key(2) same_parser by simp
    show "Option.bind (p_period_end p2) (env_field_date env2) = Some (period_end r1)"
      using r1(4) same_key(3) same_parser by simp
  qed
qed

theorem second_draft_never_saved_witness:
  "save_draft (example_env lock_off)
      (snd (save_draft (example_env lock_off) [] (example_payload ''2024-06-30'' 5 ''A'' False)))
      (example_payload ''2024-06-30'' 7 ''B'' False)
    = (HTTP_400_BAD_REQUEST,
       snd (save_draft (example_env lock_off) [] (example_payload ''2024-06-30'' 5 ''A'' False)))"
proof -
  let ?env = "example_env lock_off"
  let ?p1 = "example_payload ''2024-06-30'' 5 ''A'' False"
  let ?p2 = "example_payload ''2024-06-30'' 7 ''B'' False"
  let ?db1 = "snd (save_draft ?env [] ?p1)"
  have r1: "fst (save_draft ?env [] ?p1) = HTTP_200_OK 1" by code_simp
  have r2: "fst (save_draft ?env ?db1 ?p2) = HTTP_400_BAD_REQUEST" by code_simp
  have ids: "distinct (map pu_id ([] :: progress_update list))" by simp
  have first: "save_draft ?env [] ?p1 = (HTTP_200_OK 1, ?db1)"
    using r1 by (simp add: prod_eq_iff)
  have second: "save_draft ?env ?db1 ?p2 = (HTTP_400_BAD_REQUEST, snd (save_draft ?env ?db1 ?p2))"
    using r2 by (simp add: prod_eq_iff)
  have same: "p_target ?p2 = p_target ?p1" "p_period_start ?p2 = p_period_start ?p1"
    "p_period_end ?p2 = p_period_end ?p1"
    by (simp_all add: example_payload_def)
  from second_draft_never_saved [OF ids first second refl same]
  have "snd (save_draft ?env ?db1 ?p2) = ?db1" by blast
  with second show ?thesis by simp
qed

section \<open>Drafts stay drafts\<close>

text \<open>
  Claim C10.  Whatever the payload says, a row created or modified by the draft
  endpoint is not submitted afterwards: the row the response names is unsubmitted, and
  so is every row of the new table that was not in the old one.  The only rows the
  endpoint replaces are unsubmitted and active, and every submitted row is in the new
  table unchanged.
\<close>

theorem C10_draft_never_submitted:
  assumes ids: "distinct (map pu_id db)"
    and post: "save_draft env db payload = (resp, db')"
  shows "(\<forall>i. resp = HTTP_200_OK i \<longrightarrow> (\<exists>r\<in>set db'. pu_id r = i \<and> \<not> is_submitted r))
       \<and> (\<forall>r\<in>set db'. r \<notin> set db \<longrightarrow> \<not> is_submitted r)
       \<and> (\<forall>r\<in>set db. r \<notin> set db' \<longrightarrow> \<not> is_submitted r \<and> pu_is_active r)
       \<and> (\<forall>r\<in>set db. is_submitted r \<longrightarrow> r \<in> set db')"
  using post
proof (cases rule: save_draft_outcome)
  case refused
  then show ?thesis by simp
next
  case (updated t v existing)
  let ?new = "stamp (env_now env) ((set_validated v existing)\<lparr>updated_by := Some (env_user env)\<rparr>)"
  have ex: "existing \<in> set db" "\<not> is_submitted existing" "pu_is_active existing"
    using updated(3) by (auto simp: find_Some_iff)
  have new: "\<not> is_submitted ?new" "pu_id ?new = pu_id existing"
    by (rule draft_row_not_submitted(1) [OF updated(2)]) simp
  have same: "\<And>r. r \<in> set db \<Longrightarrow> pu_id r = pu_id existing \<Longrightarrow> r = existing"
    using same_id_same_row [OF ids _ ex(1)] by blast
  have in_new: "?new \<in> set db'"
    unfolding updated(4) using ex(1) by (auto simp: image_iff intro!: bexI [of _ existing])
  have 1: "\<forall>i. resp = HTTP_200_OK i \<longrightarrow> (\<exists>r\<in>set db'. pu_id r = i \<and> \<not> is_submitted r)"
  proof (intro allI impI)
    fix i
    assume "resp = HTTP_200_OK i"
    with updated(5) have "i = pu_id existing" by simp
    with in_new new show "\<exists>r\<in>set db'. pu_id r = i \<and> \<not> is_submitted r" by blast
  qed
  have 2: "\<forall>r\<in>set db'. r \<notin> set db \<longrightarrow> \<not> is_submitted r"
    unfolding updated(4) using new(1) by auto
  have keep: "\<And>r. r \<in> set db \<Longrightarrow> r \<noteq> existing \<Longrightarrow> r \<in> set db'"
    unfolding updated(4) using same by (force simp: image_iff)
  have 3: "\<forall>r\<in>set db. r \<notin> set db' \<longrightarrow> \<not> is_submitted r \<and> pu_is_active r"
    using keep ex by blast
  have 4: "\<forall>r\<in>set db. is_submitted r \<longrightarrow> r \<in> set db'"
    using keep ex by blast
  from 1 2 3 4 show ?thesis by blast
next
  case (created t v)
  let ?new = "stamp (env_now env)
                ((set_validated v (new_progress_update (env_fresh_id env)))
                   \<lparr>created_by := Some (env_user env), updated_by := Some (env_user env)\<rparr>)"
  have new: "\<not> is_submitted ?new" "pu_id ?new = env_fresh_id env"
    by (rule draft_row_not_submitted(2) [OF created(2)]) simp
  have in_new: "?new \<in> set db'" unfolding created(5) by simp
  have 1: "\<forall>i. resp = HTTP_200_OK i \<longrightarrow> (\<exists>r\<in>set db'. pu_id r = i \<and> \<not> is_submitted r)"
  proof (intro allI impI)
    fix i
    assume "resp = HTTP_200_OK i"
    with created(6) have "i = env_fresh_id env" by simp
    with in_new new show "\<exists>r\<in>set db'. pu_id r = i \<and> \<not> is_submitted r" by blast
  qed
  have 2: "\<forall>r\<in>set db'. r \<notin> set db \<longrightarrow> \<not> is_submitted r"
    unfolding created(5) using new(1) by auto
  have 3: "\<forall>r\<in>set db. r \<in> set db'" unfolding created(5) by simp
  from 1 2 3 show ?thesis by blast
qed

text \<open>
  A payload that asks for a submitted row still creates a draft; and when the key is
  held by a submitted row, that row stays as it is and the request is answered 400.
\<close>

theorem C10_draft_never_submitted_witness:
  "fst (save_draft (example_env lock_off) [] (example_payload ''2024-06-30'' 5 ''A'' True))
     = HTTP_200_OK 1
   \<and> (\<exists>r\<in>set (snd (save_draft (example_env lock_off) []
                       (example_payload ''2024-06-30'' 5 ''A'' True))).
          pu_id r = 1 \<and> \<not> is_submitted r)
   \<and> save_draft (example_env lock_off)
        [example_update 5 (mk_date 2024 4 1) (mk_date 2024 6 30) 3]
        (example_payload ''2024-06-30'' 5 ''A'' True)
      = (HTTP_400_BAD_REQUEST, [example_update 5 (mk_date 2024 4 1) (mk_date 2024 6 30) 3])"
proof -
  let ?env = "example_env lock_off"
  let ?p = "example_payload ''2024-06-30'' 5 ''A'' True"
  have r: "fst (save_draft ?env [] ?p) = HTTP_200_OK 1" by code_simp
  then have post: "save_draft ?env [] ?p = (HTTP_200_OK 1, snd (save_draft ?env [] ?p))"
    by (simp add: prod_eq_iff)
  have ids: "distinct (map pu_id ([] :: progress_update list))" by simp
  have "\<exists>r\<in>set (snd (save_draft ?env [] ?p)). pu_id r = 1 \<and> \<not> is_submitted r"
    using C10_draft_never_submitted [OF ids post] by blast
  moreover have "save_draft ?env [example_update 5 (mk_date 2024 4 1) (mk_date 2024 6 30) 3] ?p
      = (HTTP_400_BAD_REQUEST, [example_update 5 (mk_date 2024 4 1) (mk_date 2024 6 30) 3])"
    by code_simp
  ultimately show ?thesis using r by blast
qed

section \<open>The quarter lock at the write paths\<close>

text \<open>
  Where the lock is consulted it is obeyed: the draft endpoint answers 423 and the
  update wizard shows the form again with the error, and neither changes the table,
  whenever their lock check finds the period locked.  The draft endpoint changes the
  table only with a 200 response and the wizard only when it redirects.
\<close>

theorem lock_check_refuses:
  "(get_target env (case p_target p of Some i \<Rightarrow> Some i | None \<Rightarrow> p_target_id p) = Some t
      \<and> env_can_edit_plan_item env t
      \<and> p_period_end p = Some s \<and> s \<noteq> [] \<and> env_fromisoformat env s = Some d
      \<and> is_period_locked (env_quarter_lock env) (env_today env) (env_financial_year env t) d None
      \<longrightarrow> save_draft env db p = (HTTP_423_LOCKED, db))
   \<and> (get_target env (Some tid) = Some t \<and> env_can_edit_plan_item env t
      \<and> is_period_locked (env_quarter_lock env) (env_today env) (env_financial_year env t)
           (v_period_end v) None
      \<longrightarrow> update_wizard_view env db tid (Some v) = (FormShown True, db))
   \<and> (case fst (save_draft env db p) of HTTP_200_OK i \<Rightarrow> True | _ \<Rightarrow> snd (save_draft env db p) = db)
   \<and> (fst (update_wizard_view env db tid form) = Redirect
        \<or> snd (update_wizard_view env db tid form) = db)"
proof (intro conjI impI)
  assume "get_target env (case p_target p of Some i \<Rightarrow> Some i | None \<Rightarrow> p_target_id p) = Some t
      \<and> env_can_edit_plan_item env t
      \<and> p_period_end p = Some s \<and> s \<noteq> [] \<and> env_fromisoformat env s = Some d
      \<and> is_period_locked (env_quarter_lock env) (env_today env) (env_financial_year env t) d None"
  then show "save_draft env db p = (HTTP_423_LOCKED, db)"
    by (simp add: save_draft_def)
next
  assume "get_target env (Some tid) = Some t \<and> env_can_edit_plan_item env t
      \<and> is_period_locked (env_quarter_lock env) (env_today env) (env_financial_year env t)
           (v_period_end v) None"
  then show "update_wizard_view env db tid (Some v) = (FormShown True, db)"
    by (simp add: update_wizard_view_def)
next
  obtain resp db' where post: "save_draft env db p = (resp, db')" by (cases "save_draft env db p")
  then have "case resp of HTTP_200_OK i \<Rightarrow> True | _ \<Rightarrow> db' = db"
    by (cases rule: save_draft_outcome) (auto split: response.splits)
  then show "case fst (save_draft env db p) of HTTP_200_OK i \<Rightarrow> True
             | _ \<Rightarrow> snd (save_draft env db p) = db"
    unfolding post fst_conv snd_conv .
next
  show "fst (update_wizard_view env db tid form) = Redirect
        \<or> snd (update_wizard_view env db tid form) = db"
    by (auto simp: update_wizard_view_def Let_def split: option.splits sum.splits)
qed

text \<open>
  With locking enabled on 1 September 2024, a draft and a wizard submission for May
  2024 are both refused.
\<close>

theorem lock_check_refuses_witness:
  "save_draft (example_env lock_on) [] (example_payload ''2024-05-31'' 5 ''A'' False)
     = (HTTP_423_LOCKED, [])
   \<and> update_wizard_view (example_env lock_on) [] 1 (Some example_form) = (FormShown True, [])"
proof -
  let ?env = "example_env lock_on"
  let ?p = "example_payload ''2024-05-31'' 5 ''A'' False"
  let ?t = "example_target ''ANNUAL''"
  have t: "get_target ?env (case p_target ?p of Some i \<Rightarrow> Some i | None \<Rightarrow> p_target_id ?p) = Some ?t"
    "get_target ?env (Some 1) = Some ?t" by code_simp+
  have e: "env_can_edit_plan_item ?env ?t" by (simp add: example_env_def)
  have s: "p_period_end ?p = Some ''2024-05-31''" "''2024-05-31'' \<noteq> []"
    "env_fromisoformat ?env ''2024-05-31'' = Some (mk_date 2024 5 31)" by code_simp+
  have l: "is_period_locked (env_quarter_lock ?env) (env_today ?env) (env_financial_year ?env ?t)
             (mk_date 2024 5 31) None" by code_simp
  have l': "is_period_locked (env_quarter_lock ?env) (env_today ?env) (env_financial_year ?env ?t)
             (v_period_end example_form) None" by code_simp
  from lock_check_refuses [where env = ?env and p = ?p and t = ?t and s = "''2024-05-31''"
      and d = "mk_date 2024 5 31" and tid = 1 and v = example_form and db = "[]"]
    t e s l l'
  show ?thesis by blast
qed

text \<open>
  Claim C4.  Every attempt to save a progress update whose period end falls in a
  locked quarter is to fail and leave no row created or modified.  The manager's
  progress view never consults the lock: on 1 September 2024, with locking enabled and
  the first quarter of 2024/25 locked since 14 July, it saves a submitted update of 10
  for May 2024.
\<close>

theorem C4_manager_view_writes_locked_period:
  "is_period_locked lock_on (mk_date 2024 9 1) fy_2024_25 (mk_date 2024 5 31) None
   \<and> fst (manager_progress_update_view (example_env lock_on) [] 1 (Some example_form)) = Redirect
   \<and> map (\<lambda>r. (period_start r, period_end r, actual_value r, is_submitted r))
        (snd (manager_progress_update_view (example_env lock_on) [] 1 (Some example_form)))
      = [(mk_date 2024 5 1, mk_date 2024 5 31, 10, True)]"
  by code_simp

end
